theory Spec2Isabelle
  imports Main
begin

section \<open>JavaScript values\<close>

text \<open>
  The values that cross the IPC boundary and that the handlers build. Numbers are
  modelled as integers (the handlers only produce counts and sizes); strings are lists of
  8-bit characters.
\<close>

datatype jsval =
    JUndefined
  | JNull
  | JBool bool
  | JNum int
  | JStr string
  | JArr "jsval list"
  | JObj "(string \<times> jsval) list"

text \<open>A thrown value: an \<open>Error\<close> or a \<open>TypeError\<close> with its message.\<close>

datatype js_error = Error string | TypeError string

fun message :: "js_error \<Rightarrow> string" where
  "message (Error m) = m"
| "message (TypeError m) = m"

text \<open>\<open>error instanceof Error ? error.message : String(error)\<close>: every thrown value of
  the model is an instance of \<open>Error\<close>.\<close>

definition err_text :: "js_error \<Rightarrow> string" where
  "err_text e = message e"

text \<open>JavaScript truthiness, as used by \<open>!x\<close>, \<open>if (x)\<close> and \<open>x || y\<close>.\<close>

fun truthy :: "jsval \<Rightarrow> bool" where
  "truthy JUndefined = False"
| "truthy JNull = False"
| "truthy (JBool b) = b"
| "truthy (JNum n) = (n \<noteq> 0)"
| "truthy (JStr s) = (s \<noteq> [])"
| "truthy (JArr _) = True"
| "truthy (JObj _) = True"

definition js_or :: "jsval \<Rightarrow> jsval \<Rightarrow> jsval" where
  "js_or a b = (if truthy a then a else b)"

text \<open>Decimal digits of a natural number, for \<open>String(n)\<close>.\<close>

fun show_nat :: "nat \<Rightarrow> string" where
  "show_nat n =
     (if n < 10 then [char_of (48 + n)]
      else show_nat (n div 10) @ [char_of (48 + n mod 10)])"

declare show_nat.simps [simp del]

definition show_int :: "int \<Rightarrow> string" where
  "show_int i = (if i < 0 then CHR ''-'' # show_nat (nat (- i)) else show_nat (nat i))"

fun join_with :: "string \<Rightarrow> string list \<Rightarrow> string" where
  "join_with sep [] = []"
| "join_with sep [x] = x"
| "join_with sep (x # y # ys) = x @ sep @ join_with sep (y # ys)"

text \<open>\<open>String(v)\<close>; an array joins its elements with commas, \<open>null\<close> and
  \<open>undefined\<close> elements giving the empty string.\<close>

fun js_String :: "jsval \<Rightarrow> string" where
  "js_String JUndefined = ''undefined''"
| "js_String JNull = ''null''"
| "js_String (JBool b) = (if b then ''true'' else ''false'')"
| "js_String (JNum n) = show_int n"
| "js_String (JStr s) = s"
| "js_String (JArr xs) =
     join_with '','' (map (\<lambda>x. if x = JUndefined \<or> x = JNull then [] else js_String x) xs)"
| "js_String (JObj _) = ''[object Object]''"

text \<open>
  Reading a named property \<open>v.k\<close>. Reading from \<open>undefined\<close> or \<open>null\<close>
  throws; an object gives the stored value or \<open>undefined\<close>; the keys the handlers read
  (\<open>error\<close>, \<open>rows_imported\<close>, \<open>filePath\<close>, \<open>symbol\<close>) are not properties of
  any primitive or array, so those give \<open>undefined\<close>.
\<close>

definition lookup :: "(string \<times> jsval) list \<Rightarrow> string \<Rightarrow> jsval" where
  "lookup kvs k = (case map_of kvs k of Some v \<Rightarrow> v | None \<Rightarrow> JUndefined)"

fun get_prop :: "jsval \<Rightarrow> string \<Rightarrow> js_error + jsval" where
  "get_prop JUndefined k =
     Inl (TypeError (''Cannot read properties of undefined (reading '' @ [CHR 0x27] @ k @ [CHR 0x27] @ '')''))"
| "get_prop JNull k =
     Inl (TypeError (''Cannot read properties of null (reading '' @ [CHR 0x27] @ k @ [CHR 0x27] @ '')''))"
| "get_prop (JObj kvs) k = Inr (lookup kvs k)"
| "get_prop _ k = Inr JUndefined"

text \<open>The destructuring \<open>const { k } = data\<close>, which throws on \<open>undefined\<close> and
  \<open>null\<close>.\<close>

fun destructure :: "jsval \<Rightarrow> string \<Rightarrow> js_error + jsval" where
  "destructure JUndefined k =
     Inl (TypeError (''Cannot destructure property '' @ [CHR 0x27] @ k @ [CHR 0x27]
        @ '' of '' @ [CHR 0x27] @ ''data'' @ [CHR 0x27] @ '' as it is undefined.''))"
| "destructure JNull k =
     Inl (TypeError (''Cannot destructure property '' @ [CHR 0x27] @ k @ [CHR 0x27]
        @ '' of '' @ [CHR 0x27] @ ''data'' @ [CHR 0x27] @ '' as it is null.''))"
| "destructure (JObj kvs) k = Inr (lookup kvs k)"
| "destructure _ k = Inr JUndefined"

section \<open>String operations of the preview handler\<close>

text \<open>\<open>s.split(c)\<close> for a one-character separator: never empty, \<open>''''.split(c)\<close>
  is \<open>['''']\<close>.\<close>

fun js_split :: "char \<Rightarrow> string \<Rightarrow> string list" where
  "js_split c [] = [[]]"
| "js_split c (x # xs) =
     (if x = c then [] # js_split c xs
      else (case js_split c xs of
              [] \<Rightarrow> [[x]]
            | y # ys \<Rightarrow> (x # y) # ys))"

definition is_space :: "char \<Rightarrow> bool" where
  "is_space c = (c \<in> set [CHR 0x09, CHR 0x0A, CHR 0x0B, CHR 0x0C, CHR 0x0D, CHR 0x20, CHR 0xA0])"

definition js_trim :: "string \<Rightarrow> string" where
  "js_trim s = rev (dropWhile is_space (rev (dropWhile is_space s)))"

text \<open>\<open>s.replace(/"/g, '')\<close>.\<close>

definition strip_quotes :: "string \<Rightarrow> string" where
  "strip_quotes s = filter (\<lambda>c. c \<noteq> CHR 0x22) s"

text \<open>\<open>cell => cell.trim().replace(/"/g, '')\<close>.\<close>

definition clean_cell :: "string \<Rightarrow> string" where
  "clean_cell s = strip_quotes (js_trim s)"

text \<open>\<open>fileContent.split('\n').filter(line => line.trim())\<close>.\<close>

definition nonblank_lines :: "string \<Rightarrow> string list" where
  "nonblank_lines fileContent = filter (\<lambda>line. js_trim line \<noteq> []) (js_split (CHR 0x0A) fileContent)"

text \<open>
  The keys of a plain object are listed with the array indices first, in ascending order,
  and the other keys after them in the order they were added. An array index is the
  decimal form, without leading zeros, of a number up to 4294967294.
\<close>

definition is_digit :: "char \<Rightarrow> bool" where
  "is_digit c = (48 \<le> (of_char c :: int) \<and> (of_char c :: int) \<le> 57)"

definition digits_value :: "string \<Rightarrow> int" where
  "digits_value s = foldl (\<lambda>a c. 10 * a + ((of_char c :: int) - 48)) 0 s"

definition index_of_key :: "string \<Rightarrow> int option" where
  "index_of_key k =
     (if k = ''0'' then Some 0
      else if k \<noteq> [] \<and> list_all is_digit k \<and> hd k \<noteq> CHR ''0'' \<and> length k \<le> 10
              \<and> digits_value k \<le> 4294967294
      then Some (digits_value k)
      else None)"

text \<open>\<open>row[col] = v\<close> for a key the object has: the key keeps its place and gets the
  new value.\<close>

fun assign :: "string \<Rightarrow> jsval \<Rightarrow> (string \<times> jsval) list \<Rightarrow> (string \<times> jsval) list" where
  "assign k v [] = [(k, v)]"
| "assign k v ((k', v') # kvs) = (if k = k' then (k, v) # kvs else (k', v') # assign k v kvs)"

text \<open>A new array index goes before the first key that is a larger index or no index.\<close>

fun insert_index :: "int \<Rightarrow> string \<Rightarrow> jsval \<Rightarrow> (string \<times> jsval) list \<Rightarrow> (string \<times> jsval) list" where
  "insert_index n k v [] = [(k, v)]"
| "insert_index n k v ((k', v') # kvs) =
     (case index_of_key k' of
        Some m \<Rightarrow> if m < n then (k', v') # insert_index n k v kvs else (k, v) # (k', v') # kvs
      | None \<Rightarrow> (k, v) # (k', v') # kvs)"

text \<open>\<open>row[col] = v\<close>: assigning a string to \<open>__proto__\<close> is ignored by the
  language; an existing key is overwritten in place; a new key is added where the listing
  order puts it.\<close>

definition row_set :: "(string \<times> jsval) list \<Rightarrow> string \<Rightarrow> jsval \<Rightarrow> (string \<times> jsval) list" where
  "row_set row col v =
     (if col = ''__proto__'' then row
      else if col \<in> set (map fst row) then assign col v row
      else (case index_of_key col of
              Some n \<Rightarrow> insert_index n col v row
            | None \<Rightarrow> row @ [(col, v)]))"

text \<open>\<open>values[index] || ''\<close>: out of range reads \<open>undefined\<close>.\<close>

definition cell_at :: "string list \<Rightarrow> nat \<Rightarrow> jsval" where
  "cell_at vals index = js_or (if index < length vals then JStr (vals ! index) else JUndefined) (JStr [])"

text \<open>\<open>columns.forEach((col, index) => { row[col] = values[index] || ''; })\<close>.\<close>

definition make_row :: "string list \<Rightarrow> string list \<Rightarrow> jsval" where
  "make_row columns vals =
     JObj (foldl (\<lambda>row (col, index). row_set row col (cell_at vals index)) []
                 (zip columns [0 ..< length columns]))"

text \<open>The loop \<open>for (let i = 1; i <= maxPreviewRows; i++)\<close>, every \<open>lines[i]\<close> in
  range because \<open>maxPreviewRows \<le> lines.length - 1\<close>.\<close>

definition preview_rows :: "string list \<Rightarrow> string list \<Rightarrow> jsval list" where
  "preview_rows columns lines =
     (let maxPreviewRows = min 10 (length lines - 1)
      in map (\<lambda>i. make_row columns (map clean_cell (js_split (CHR '','') (lines ! i))))
             [1 ..< Suc maxPreviewRows])"

section \<open>The preload boundary\<close>

text \<open>The whitelist of \<open>electronAPI.invoke\<close>.\<close>

definition validChannels :: "string list" where
  "validChannels =
     [''health-check'', ''open-file-dialog'', ''preview-file'', ''import-data'',
      ''run-backtest'', ''get-strategies'', ''save-strategy'', ''get-price-data'',
      ''get-backtest-results'']"

text \<open>The call \<open>ipcRenderer.invoke(channel, data)\<close> that the preload script makes.\<close>

datatype ipc_call = IpcInvoke string jsval

text \<open>\<open>electronAPI.invoke\<close>: forwards a whitelisted channel, and otherwise throws
  \<open>Error(`Invalid channel: ${channel}`)\<close> from the call itself.\<close>

definition invoke :: "string \<Rightarrow> jsval \<Rightarrow> js_error + ipc_call" where
  "invoke channel data =
     (if channel \<in> set validChannels then Inr (IpcInvoke channel data)
      else Inl (Error (''Invalid channel: '' @ channel)))"

section \<open>The host process: environment, state and effects\<close>

type_synonym pid = nat
type_synonym ticket = nat

datatype fsnode = File string | Directory int

text \<open>
  What the host reads from outside: the file system, the results of \<open>path.join\<close>,
  \<open>process.cwd()\<close>, \<open>os.homedir()\<close>, \<open>new Date().toISOString()\<close>,
  \<open>app.getVersion()\<close>, and the library functions \<open>JSON.parse\<close> (\<open>None\<close> when
  it throws) and \<open>JSON.stringify\<close>. The file dialog's answer (canceled, chosen paths)
  and the presence of the main window are read from here as well.
\<close>

record env =
  fs :: "string \<Rightarrow> fsnode option"
  path_join :: "string list \<Rightarrow> string"
  cwd :: string
  homedir :: string
  now :: string
  version :: string
  JSON_parse :: "string \<Rightarrow> jsval option"
  JSON_stringify :: "jsval \<Rightarrow> string"
  mainWindow :: bool
  dialog_answer :: "bool \<times> string list"

text \<open>How the promise of a caller ended: resolved, rejected, or never created because
  the call itself threw.\<close>

datatype outcome = Resolved jsval | Rejected js_error | Thrown js_error

fun of_result :: "js_error + jsval \<Rightarrow> outcome" where
  "of_result (Inl e) = Rejected e"
| "of_result (Inr v) = Resolved v"

text \<open>
  Who awaits the promise of \<open>sendToPython\<close>: a direct caller, or the rest of the
  \<open>health-check\<close>, \<open>ping-python\<close> or \<open>import-data\<close> handler (which keeps the
  \<open>symbol\<close> it destructured).
\<close>

datatype waiter =
    W_caller ticket
  | W_health ticket
  | W_ping ticket
  | W_import ticket jsval

text \<open>Who awaits the promise of \<open>start\<close>: a direct caller (the application's startup
  is one), or a \<open>sendToPython\<close> suspended at \<open>await this.start()\<close>.\<close>

datatype start_waiter =
    SW_caller ticket
  | SW_send string jsval waiter

text \<open>The two \<open>setTimeout\<close> callbacks of the service: the liveness check of
  \<open>start\<close> (1000 ms) and the mock response of \<open>sendToPython\<close> (100 ms).\<close>

datatype timer = StartCheck start_waiter | MockResolve string waiter

datatype effect =
    Spawn pid string "string list"
  | StdinWrite pid string
  | Kill pid
  | ExistsSync jsval
  | ReadFileSync jsval
  | StatSync string
  | ShowOpenDialog
  | ConsoleLog string "jsval list"
  | ConsoleError string "jsval list"

text \<open>
  The state of the host: the field \<open>pythonProcess\<close> of the service, the number of
  processes spawned so far (the next one gets this number), the timers that have not fired,
  the promises that have ended, and everything the host did to the outside.
\<close>

record state =
  pythonProcess :: "pid option"
  spawned :: nat
  timers :: "timer list"
  settled :: "(ticket \<times> outcome) list"
  trace :: "effect list"

definition init :: state where
  "init = \<lparr>pythonProcess = None, spawned = 0, timers = [], settled = [], trace = []\<rparr>"

definition settle :: "ticket \<Rightarrow> outcome \<Rightarrow> state \<Rightarrow> state" where
  "settle t out s = s\<lparr>settled := settled s @ [(t, out)]\<rparr>"

definition emit :: "effect list \<Rightarrow> state \<Rightarrow> state" where
  "emit es s = s\<lparr>trace := trace s @ es\<rparr>"

section \<open>PythonService\<close>

text \<open>
  \<open>start\<close>: spawns the interpreter, stores the handle, registers the stream and close
  handlers (they are the functions \<open>on_stdout\<close>, \<open>on_stderr\<close>, \<open>on_close\<close> below)
  and arms the liveness check. There is no test of the handle before the spawn.
\<close>

definition start :: "env \<Rightarrow> start_waiter \<Rightarrow> state \<Rightarrow> state" where
  "start e sw s =
     (let pythonScript = path_join e [cwd e, ''backend'', ''main.py''];
          p = spawned s
      in s\<lparr>pythonProcess := Some p,
           spawned := Suc p,
           timers := timers s @ [StartCheck sw],
           trace := trace s @ [ConsoleLog ''Starting Python backend:'' [JStr pythonScript],
                               Spawn p ''python'' [pythonScript]]\<rparr>)"

text \<open>The stdout handler: the whole chunk is handed to \<open>JSON.parse\<close>; either way it
  is only logged.\<close>

definition on_stdout :: "env \<Rightarrow> string \<Rightarrow> state \<Rightarrow> state" where
  "on_stdout e chunk s =
     (case JSON_parse e chunk of
        Some response \<Rightarrow> emit [ConsoleLog ''Python response:'' [response]] s
      | None \<Rightarrow> emit [ConsoleLog ''Python stdout:'' [JStr chunk]] s)"

definition on_stderr :: "string \<Rightarrow> state \<Rightarrow> state" where
  "on_stderr chunk s = emit [ConsoleError ''Python stderr:'' [JStr chunk]] s"

text \<open>The close handler clears the field of the service, whichever process closed.\<close>

definition on_close :: "int \<Rightarrow> state \<Rightarrow> state" where
  "on_close code s =
     (emit [ConsoleLog ''Python process exited with code'' [JNum code]] s)\<lparr>pythonProcess := None\<rparr>"

definition stop :: "state \<Rightarrow> state" where
  "stop s =
     (case pythonProcess s of
        Some p \<Rightarrow> (emit [Kill p] s)\<lparr>pythonProcess := None\<rparr>
      | None \<Rightarrow> s)"

text \<open>The object that \<open>sendToPython\<close> resolves with after 100 ms.\<close>

definition mock_response :: "string \<Rightarrow> jsval" where
  "mock_response action =
     JObj [(''status'', JStr ''ok''),
           (''message'', JStr ''Request sent to Python backend''),
           (''action'', JStr action),
           (''python_alive'', JBool True)]"

section \<open>The handlers registered with ipcMain\<close>

definition existsSync :: "env \<Rightarrow> jsval \<Rightarrow> bool" where
  "existsSync e v = (case v of JStr p \<Rightarrow> fs e p \<noteq> None | _ \<Rightarrow> False)"

definition readFileSync :: "env \<Rightarrow> jsval \<Rightarrow> js_error + string" where
  "readFileSync e v =
     (case v of
        JStr p \<Rightarrow>
          (case fs e p of
             Some (File content) \<Rightarrow> Inr content
           | Some (Directory _) \<Rightarrow> Inl (Error ''EISDIR: illegal operation on a directory, read'')
           | None \<Rightarrow> Inl (Error (''ENOENT: no such file or directory, open '' @ [CHR 0x27] @ p @ [CHR 0x27])))
      | _ \<Rightarrow> Inl (TypeError (''The '' @ [CHR 0x22] @ ''path'' @ [CHR 0x22]
             @ '' argument must be of type string or an instance of Buffer or URL.'')))"

definition stat_size :: "env \<Rightarrow> string \<Rightarrow> int" where
  "stat_size e p = (case fs e p of Some (File content) \<Rightarrow> int (length content) | Some (Directory n) \<Rightarrow> n | None \<Rightarrow> 0)"

definition error_object :: "js_error \<Rightarrow> jsval" where
  "error_object err = JObj [(''error'', JStr (err_text err))]"

subsection \<open>preview-file\<close>

text \<open>The \<open>try\<close> block of the handler: what it did to the outside, and the value it
  returned or the error it threw.\<close>

definition preview_try :: "env \<Rightarrow> jsval \<Rightarrow> effect list \<times> (js_error + jsval)" where
  "preview_try e data =
     (case destructure data ''filePath'' of
        Inl err \<Rightarrow> ([], Inl err)
      | Inr filePath \<Rightarrow>
          if \<not> truthy filePath then ([], Inl (Error ''No file path provided''))
          else if \<not> existsSync e filePath then ([ExistsSync filePath], Inl (Error ''File does not exist''))
          else
            (case readFileSync e filePath of
               Inl err \<Rightarrow> ([ExistsSync filePath, ReadFileSync filePath], Inl err)
             | Inr fileContent \<Rightarrow>
                 (let lines = nonblank_lines fileContent
                  in if length lines = 0
                     then ([ExistsSync filePath, ReadFileSync filePath], Inl (Error ''File is empty''))
                     else
                       (let columns = map clean_cell (js_split (CHR '','') (lines ! 0));
                            preview = preview_rows columns lines;
                            rows_total = int (length lines) - 1
                        in ([ExistsSync filePath, ReadFileSync filePath,
                             ConsoleLog ''File preview generated:''
                               [JObj [(''columns'', JNum (int (length columns))),
                                      (''previewRows'', JNum (int (length preview))),
                                      (''totalRows'', JNum rows_total)]]],
                            Inr (JObj [(''preview'', JArr preview),
                                       (''columns'', JArr (map JStr columns)),
                                       (''rows_total'', JNum rows_total)]))))))"

text \<open>The handler with its \<open>catch\<close>: a thrown error is logged and returned as
  \<open>{error: message}\<close>.\<close>

definition preview_file :: "env \<Rightarrow> ticket \<Rightarrow> jsval \<Rightarrow> state \<Rightarrow> state" where
  "preview_file e t data s =
     (case preview_try e data of
        (effs, Inr v) \<Rightarrow> settle t (Resolved v) (emit effs s)
      | (effs, Inl err) \<Rightarrow>
          settle t (Resolved (error_object err))
            (emit (effs @ [ConsoleError ''Error in preview-file:'' [JStr (err_text err)]]) s))"

subsection \<open>health-check\<close>

text \<open>The handler after \<open>await pythonService.sendToPython('health-check')\<close>.\<close>

definition health_after :: "env \<Rightarrow> ticket \<Rightarrow> js_error + jsval \<Rightarrow> state \<Rightarrow> state" where
  "health_after e t r s =
     (case r of
        Inl err \<Rightarrow>
          settle t (Resolved (JObj [(''status'', JStr ''error''),
                                    (''timestamp'', JStr (now e)),
                                    (''version'', JStr (version e)),
                                    (''error'', JStr (err_text err))])) s
      | Inr pythonHealth \<Rightarrow>
          (let dbPath = path_join e [homedir e, ''.byod_backtesting'', ''trading_data.db''];
               dbExists = (fs e dbPath \<noteq> None);
               dbSize = (if dbExists then stat_size e dbPath else 0)
           in settle t
                (Resolved (JObj [(''status'', JStr ''ok''),
                                 (''database'', JStr (if dbExists then ''connected'' else ''created'')),
                                 (''timestamp'', JStr (now e)),
                                 (''version'', JStr (version e)),
                                 (''python_backend'', pythonHealth),
                                 (''electron_main'', JObj [(''ok'', JBool True), (''from'', JStr ''main'')]),
                                 (''database_info'', JObj [(''path'', JStr dbPath),
                                                           (''exists'', JBool dbExists),
                                                           (''size'', JNum dbSize)])]))
                (emit (ExistsSync (JStr dbPath) # (if dbExists then [StatSync dbPath] else [])) s)))"

subsection \<open>ping-python\<close>

definition ping_after :: "ticket \<Rightarrow> js_error + jsval \<Rightarrow> state \<Rightarrow> state" where
  "ping_after t r s =
     (case r of
        Inl err \<Rightarrow> settle t (Resolved (error_object err)) s
      | Inr v \<Rightarrow> settle t (Resolved v) s)"

subsection \<open>import-data\<close>

definition import_catch :: "ticket \<Rightarrow> js_error \<Rightarrow> state \<Rightarrow> state" where
  "import_catch t err s =
     settle t (Resolved (error_object err))
       (emit [ConsoleError ''Error in import-data:'' [JStr (err_text err)]] s)"

text \<open>The handler after \<open>await pythonService.sendToPython('import-data', ...)\<close>.\<close>

definition import_after :: "ticket \<Rightarrow> jsval \<Rightarrow> js_error + jsval \<Rightarrow> state \<Rightarrow> state" where
  "import_after t symbol r s =
     (case r of
        Inl err \<Rightarrow> import_catch t err s
      | Inr result \<Rightarrow>
          (case get_prop result ''error'' of
             Inl err \<Rightarrow> import_catch t err s
           | Inr er \<Rightarrow>
               if truthy er then import_catch t (Error (js_String er)) s
               else
                 (case get_prop result ''rows_imported'' of
                    Inl err \<Rightarrow> import_catch t err (emit [ConsoleLog ''Data import successful:'' [result]] s)
                  | Inr n \<Rightarrow>
                      settle t
                        (Resolved (JObj [(''success'', JBool True),
                                         (''rowsImported'', js_or n (JNum 0)),
                                         (''symbol'', symbol)]))
                        (emit [ConsoleLog ''Data import successful:'' [result]] s))))"

section \<open>Promises and timers of the service\<close>

text \<open>The promise of \<open>sendToPython\<close> ends: its waiter runs.\<close>

fun resume :: "env \<Rightarrow> waiter \<Rightarrow> js_error + jsval \<Rightarrow> state \<Rightarrow> state" where
  "resume e (W_caller t) r s = settle t (of_result r) s"
| "resume e (W_health t) r s = health_after e t r s"
| "resume e (W_ping t) r s = ping_after t r s"
| "resume e (W_import t symbol) r s = import_after t symbol r s"

text \<open>
  The promise body of \<open>sendToPython\<close>: the request object is written to the stdin of
  the process in the field, followed by a newline, and logged; the mock response is armed.
  The request has the fields \<open>action\<close>, \<open>data\<close> and \<open>timestamp\<close> and nothing else.
  A \<open>null\<close> field makes \<open>this.pythonProcess.stdin\<close> throw inside the promise body,
  which rejects the promise.
\<close>

definition send_request :: "env \<Rightarrow> string \<Rightarrow> jsval \<Rightarrow> waiter \<Rightarrow> state \<Rightarrow> state" where
  "send_request e action data w s =
     (let request = JObj [(''action'', JStr action), (''data'', data), (''timestamp'', JStr (now e))]
      in case pythonProcess s of
           None \<Rightarrow>
             resume e w (Inl (TypeError (''Cannot read properties of null (reading '' @ [CHR 0x27] @ ''stdin'' @ [CHR 0x27] @ '')''))) s
         | Some p \<Rightarrow>
             (emit [StdinWrite p (JSON_stringify e request @ [CHR 0x0A]),
                    ConsoleLog ''Sent to Python:'' [request]] s)
               \<lparr>timers := timers s @ [MockResolve action w]\<rparr>)"

text \<open>\<open>sendToPython\<close>: starts the worker only when the field is empty.\<close>

definition sendToPython :: "env \<Rightarrow> string \<Rightarrow> jsval \<Rightarrow> waiter \<Rightarrow> state \<Rightarrow> state" where
  "sendToPython e action data w s =
     (if pythonProcess s = None then start e (SW_send action data w) s
      else send_request e action data w s)"

text \<open>The promise of \<open>start\<close> ends: a direct caller gets the outcome; a suspended
  \<open>sendToPython\<close> rethrows a rejection and otherwise goes on to its promise body.\<close>

fun resume_start :: "env \<Rightarrow> start_waiter \<Rightarrow> js_error + jsval \<Rightarrow> state \<Rightarrow> state" where
  "resume_start e (SW_caller t) r s = settle t (of_result r) s"
| "resume_start e (SW_send action data w) r s =
     (case r of
        Inl err \<Rightarrow> resume e w (Inl err) s
      | Inr _ \<Rightarrow> send_request e action data w s)"

text \<open>A timer fires.\<close>

fun fire :: "env \<Rightarrow> timer \<Rightarrow> state \<Rightarrow> state" where
  "fire e (StartCheck sw) s =
     (if pythonProcess s \<noteq> None
      then resume_start e sw (Inr (JBool True)) (emit [ConsoleLog ''Python backend process started'' []] s)
      else resume_start e sw (Inl (Error ''Failed to start Python process'')) s)"
| "fire e (MockResolve action w) s = resume e w (Inr (mock_response action)) s"

section \<open>Dispatch of the channels\<close>

definition health_check :: "env \<Rightarrow> ticket \<Rightarrow> state \<Rightarrow> state" where
  "health_check e t s = sendToPython e ''health-check'' JUndefined (W_health t) s"

definition ping_python :: "env \<Rightarrow> ticket \<Rightarrow> state \<Rightarrow> state" where
  "ping_python e t s = sendToPython e ''ping'' JUndefined (W_ping t) s"

text \<open>\<open>import-data\<close> up to its \<open>await\<close>.\<close>

definition import_data :: "env \<Rightarrow> ticket \<Rightarrow> jsval \<Rightarrow> state \<Rightarrow> state" where
  "import_data e t data s =
     (case destructure data ''filePath'' of
        Inl err \<Rightarrow> import_catch t err s
      | Inr filePath \<Rightarrow>
          (case destructure data ''symbol'' of
             Inl err \<Rightarrow> import_catch t err s
           | Inr symbol \<Rightarrow>
               if \<not> truthy filePath then import_catch t (Error ''No file path provided'') s
               else if \<not> existsSync e filePath
               then import_catch t (Error ''File does not exist'') (emit [ExistsSync filePath] s)
               else sendToPython e ''import-data''
                      (JObj [(''file_path'', filePath), (''symbol'', symbol)])
                      (W_import t symbol) (emit [ExistsSync filePath] s)))"

text \<open>\<open>open-file-dialog\<close>, with the answer of the dialog read from the environment.\<close>

definition open_file_dialog :: "env \<Rightarrow> ticket \<Rightarrow> state \<Rightarrow> state" where
  "open_file_dialog e t s =
     (if \<not> mainWindow e
      then settle t (Resolved (JObj [(''canceled'', JBool False),
                                     (''error'', JStr ''Main window not available'')]))
             (emit [ConsoleError ''Error in open-file-dialog:'' [JStr ''Main window not available'']] s)
      else
        (case dialog_answer e of
           (canceled, filePaths) \<Rightarrow>
             if canceled then settle t (Resolved (JObj [(''canceled'', JBool True)])) (emit [ShowOpenDialog] s)
             else if length filePaths = 0
             then settle t (Resolved (JObj [(''canceled'', JBool True)])) (emit [ShowOpenDialog] s)
             else settle t (Resolved (JObj [(''canceled'', JBool False), (''filePath'', JStr (filePaths ! 0))]))
                    (emit [ShowOpenDialog, ConsoleLog ''File selected:'' [JStr (filePaths ! 0)]] s)))"

text \<open>
  \<open>ipcMain\<close> runs the handler registered for the channel. For a channel without a
  handler Electron rejects the renderer's promise.
\<close>

definition ipcMain_handle :: "env \<Rightarrow> ticket \<Rightarrow> string \<Rightarrow> jsval \<Rightarrow> state \<Rightarrow> state" where
  "ipcMain_handle e t channel data s =
     (if channel = ''health-check'' then health_check e t s
      else if channel = ''ping''
      then settle t (Resolved (JObj [(''ok'', JBool True), (''from'', JStr ''main'')])) s
      else if channel = ''ping-python'' then ping_python e t s
      else if channel = ''open-file-dialog'' then open_file_dialog e t s
      else if channel = ''preview-file'' then preview_file e t data s
      else if channel = ''import-data'' then import_data e t data s
      else settle t (Rejected (Error (''Error invoking remote method '' @ [CHR 0x27] @ channel @ [CHR 0x27]
                 @ '': Error: No handler registered for '' @ [CHR 0x27] @ channel @ [CHR 0x27]))) s)"

text \<open>\<open>window.electronAPI.invoke(channel, data)\<close> as the renderer sees it.\<close>

definition boundary_invoke :: "env \<Rightarrow> ticket \<Rightarrow> string \<Rightarrow> jsval \<Rightarrow> state \<Rightarrow> state" where
  "boundary_invoke e t channel data s =
     (case invoke channel data of
        Inl err \<Rightarrow> settle t (Thrown err) s
      | Inr (IpcInvoke c d) \<Rightarrow> ipcMain_handle e t c d s)"

section \<open>The event loop\<close>

text \<open>
  One turn of the host's event loop: a call into the service or across the boundary, an
  event of a spawned process, or a timer firing. The handlers of a process exist once it
  has been spawned. Timers may fire in any order.
\<close>

datatype event =
    Call_start ticket
  | Call_sendToPython ticket string jsval
  | Call_stop
  | Invoke ticket string jsval
  | Ping ticket
  | PingPython ticket
  | Stdout pid string
  | Stderr pid string
  | Close pid int
  | Fire nat

definition remove_nth :: "nat \<Rightarrow> 'a list \<Rightarrow> 'a list" where
  "remove_nth i xs = take i xs @ drop (Suc i) xs"

fun step :: "env \<Rightarrow> state \<Rightarrow> event \<Rightarrow> state" where
  "step e s (Call_start t) = start e (SW_caller t) s"
| "step e s (Call_sendToPython t action data) = sendToPython e action data (W_caller t) s"
| "step e s Call_stop = stop s"
| "step e s (Invoke t channel data) = boundary_invoke e t channel data s"
| "step e s (Ping t) = ipcMain_handle e t ''ping'' JUndefined s"
| "step e s (PingPython t) = ipcMain_handle e t ''ping-python'' JUndefined s"
| "step e s (Stdout p chunk) = (if p < spawned s then on_stdout e chunk s else s)"
| "step e s (Stderr p chunk) = (if p < spawned s then on_stderr chunk s else s)"
| "step e s (Close p code) = (if p < spawned s then on_close code s else s)"
| "step e s (Fire i) =
     (if i < length (timers s)
      then fire e (timers s ! i) (s\<lparr>timers := remove_nth i (timers s)\<rparr>)
      else s)"

definition run :: "env \<Rightarrow> state \<Rightarrow> event list \<Rightarrow> state" where
  "run e s evs = foldl (step e) s evs"

section \<open>Classes of events and a sample environment\<close>

definition frame_alpha :: string where
  \<open>frame_alpha = ''{"id":1,"status":"ok","result":"ALPHA"}''\<close>

definition frame_beta :: string where
  \<open>frame_beta = ''{"id":2,"status":"ok","result":"BETA"}''\<close>

definition payload_alpha :: jsval where
  "payload_alpha = JObj [(''id'', JNum 1), (''status'', JStr ''ok''), (''result'', JStr ''ALPHA'')]"

definition payload_beta :: jsval where
  "payload_beta = JObj [(''id'', JNum 2), (''status'', JStr ''ok''), (''result'', JStr ''BETA'')]"

definition demo_csv :: string where
  "demo_csv = ''date,open,close\<newline>2024-01-02,10,11\<newline>2024-01-03,11,12\<newline>2024-01-04,12,13\<newline>2024-01-05,13,14\<newline>2024-01-08,14,15\<newline>2024-01-09,15,16\<newline>2024-01-10,16,17\<newline>2024-01-11,17,18\<newline>2024-01-12,18,19\<newline>2024-01-15,19,20\<newline>''"

definition demo_env :: env where
  "demo_env =
     \<lparr>fs = map_of [(''/data/prices.csv'', File demo_csv)],
      path_join = join_with ''/'',
      cwd = ''/app'',
      homedir = ''/home/user'',
      now = ''2024-01-01T00:00:00.000Z'',
      version = ''1.0.0'',
      JSON_parse = map_of [(frame_alpha, payload_alpha), (frame_beta, payload_beta)],
      JSON_stringify = js_String,
      mainWindow = True,
      dialog_answer = (True, [])\<rparr>"

text \<open>
  A second environment, for a worker that prints a number on a line of its own and a
  record spread over two lines: \<open>JSON.parse\<close> accepts the number, and accepts the
  two-line chunk as a whole, while neither of its lines parses alone.
\<close>

definition chunk_two_lines :: string where
  \<open>chunk_two_lines = ''{\<newline>"ready":true}''\<close>

definition parse_env :: env where
  "parse_env =
     demo_env\<lparr>JSON_parse := map_of [(''42'', JNum 42),
                                      (chunk_two_lines, JObj [(''ready'', JBool True)])]\<rparr>"

fun is_worker_event :: "event \<Rightarrow> bool" where
  "is_worker_event (Stdout _ _) = True"
| "is_worker_event (Stderr _ _) = True"
| "is_worker_event (Close _ _) = True"
| "is_worker_event _ = False"

fun closes :: "nat \<Rightarrow> event \<Rightarrow> bool" where
  "closes n (Close p _) = (p < n)"
| "closes n _ = False"

fun is_request :: "event \<Rightarrow> bool" where
  "is_request (Call_sendToPython _ _ _) = True"
| "is_request (Invoke _ _ _) = True"
| "is_request (Ping _) = True"
| "is_request (PingPython _) = True"
| "is_request _ = False"


text \<open>A promise that ended by resolving.\<close>

fun is_resolved :: "outcome \<Rightarrow> bool" where
  "is_resolved (Resolved _) = True"
| "is_resolved _ = False"

text \<open>The ticket of the caller a waiter or a timer will eventually answer.\<close>

fun waiter_ticket :: "waiter \<Rightarrow> ticket" where
  "waiter_ticket (W_caller t) = t"
| "waiter_ticket (W_health t) = t"
| "waiter_ticket (W_ping t) = t"
| "waiter_ticket (W_import t _) = t"

fun timer_ticket :: "timer \<Rightarrow> ticket" where
  "timer_ticket (StartCheck (SW_caller t)) = t"
| "timer_ticket (StartCheck (SW_send _ _ w)) = waiter_ticket w"
| "timer_ticket (MockResolve _ w) = waiter_ticket w"

text \<open>Waiters and timers that belong to a handler behind the boundary.\<close>

fun handler_waiter :: "waiter \<Rightarrow> bool" where
  "handler_waiter (W_caller _) = False"
| "handler_waiter _ = True"

fun handler_timer :: "timer \<Rightarrow> bool" where
  "handler_timer (StartCheck (SW_caller _)) = False"
| "handler_timer (StartCheck (SW_send _ _ w)) = handler_waiter w"
| "handler_timer (MockResolve _ w) = handler_waiter w"

text \<open>An invocation of one of the handlers \<open>health-check\<close>, \<open>preview-file\<close>,
  \<open>import-data\<close> (through \<open>electronAPI.invoke\<close>) or \<open>ping-python\<close> (through
  \<open>electronAPI.pingPython\<close>), with the ticket of its promise.\<close>

fun handler_call :: "event \<Rightarrow> ticket option" where
  "handler_call (Invoke t channel data) =
     (if channel \<in> set [''health-check'', ''preview-file'', ''import-data''] then Some t else None)"
| "handler_call (PingPython t) = Some t"
| "handler_call _ = None"

text \<open>What happens around the handlers: worker events, timers, \<open>stop\<close>.\<close>

fun background_event :: "event \<Rightarrow> bool" where
  "background_event (Stdout _ _) = True"
| "background_event (Stderr _ _) = True"
| "background_event (Close _ _) = True"
| "background_event (Fire _) = True"
| "background_event Call_stop = True"
| "background_event _ = False"

definition handler_event :: "event \<Rightarrow> bool" where
  "handler_event ev = (background_event ev \<or> handler_call ev \<noteq> None)"

text \<open>A liveness check may arm one mock response when it fires; a mock response arms
  nothing. Firing the oldest timer this many times leaves no timer pending.\<close>

fun timer_weight :: "timer \<Rightarrow> nat" where
  "timer_weight (StartCheck _) = 2"
| "timer_weight (MockResolve _ _) = 1"

definition drain :: "env \<Rightarrow> state \<Rightarrow> state" where
  "drain e s = run e s (replicate (sum_list (map timer_weight (timers s))) (Fire 0))"

text \<open>
  Sequences of events as the application produces them: \<open>start\<close> is called directly only
  while the field is empty (the startup call), \<open>stop\<close> is not called, and a worker closes
  only once, after it was spawned. The list holds the workers that have closed so far.
\<close>

fun guarded_event :: "state \<Rightarrow> pid list \<Rightarrow> event \<Rightarrow> bool" where
  "guarded_event s cl (Call_start _) = (pythonProcess s = None)"
| "guarded_event s cl Call_stop = False"
| "guarded_event s cl (Close p _) = (p < spawned s \<and> p \<notin> set cl)"
| "guarded_event s cl _ = True"

fun closed_after :: "pid list \<Rightarrow> event \<Rightarrow> pid list" where
  "closed_after cl (Close p _) = p # cl"
| "closed_after cl _ = cl"

fun guarded_run :: "env \<Rightarrow> state \<Rightarrow> pid list \<Rightarrow> event list \<Rightarrow> bool" where
  "guarded_run e s cl [] = True"
| "guarded_run e s cl (ev # evs) =
     (guarded_event s cl ev \<and> guarded_run e (step e s ev) (closed_after cl ev) evs)"

definition run_closed :: "pid list \<Rightarrow> event list \<Rightarrow> pid list" where
  "run_closed cl evs = foldl closed_after cl evs"

text \<open>The workers that were spawned and have not closed.\<close>

definition live_workers :: "state \<Rightarrow> pid list \<Rightarrow> pid list" where
  "live_workers s cl = filter (\<lambda>p. p \<notin> set cl) [0 ..< spawned s]"

section \<open>Verified properties\<close>

text \<open>
  Claim C2, as the code has it. For a channel outside the whitelist,
  \<open>electronAPI.invoke\<close> fails at once by throwing the error \<open>Invalid channel: <name>\<close>
  from the call itself: no promise is returned, so none is rejected. The host is left as
  it was but for the record of that failure: nothing is forwarded over IPC, nothing is
  spawned or written, no file is touched and no timer or waiter is registered. For a
  channel in the whitelist the call is exactly \<open>ipcRenderer.invoke(channel, data)\<close>,
  handed to the host's dispatch.
\<close>

theorem invoke_whitelist:
  "(channel \<notin> set validChannels \<longrightarrow>
      invoke channel data = Inl (Error (''Invalid channel: '' @ channel)) \<and>
      boundary_invoke e t channel data s =
        s\<lparr>settled := settled s @ [(t, Thrown (Error (''Invalid channel: '' @ channel)))]\<rparr>) \<and>
   (channel \<in> set validChannels \<longrightarrow>
      invoke channel data = Inr (IpcInvoke channel data) \<and>
      boundary_invoke e t channel data s = ipcMain_handle e t channel data s)"
  by (simp add: invoke_def boundary_invoke_def settle_def)

theorem invoke_whitelist_witness:
  "''delete-everything'' \<notin> set validChannels \<and>
   boundary_invoke demo_env 1 ''delete-everything'' JNull init =
     init\<lparr>settled := [(1, Thrown (Error ''Invalid channel: delete-everything''))]\<rparr> \<and>
   ''preview-file'' \<in> set validChannels \<and>
   invoke ''preview-file'' JNull = Inr (IpcInvoke ''preview-file'' JNull)"
proof -
  have a: "''delete-everything'' \<notin> set validChannels" by (simp add: validChannels_def)
  have b: "''preview-file'' \<in> set validChannels" by (simp add: validChannels_def)
  from a b invoke_whitelist [of "''delete-everything''" JNull demo_env 1 init]
    invoke_whitelist [of "''preview-file''" JNull demo_env 1 init]
  show ?thesis by (simp add: init_def)
qed

text \<open>
  The claim as written fails: for a name outside the whitelist the caller gets a thrown
  error, not a rejected promise.
\<close>

theorem unlisted_channel_throws:
  "settled (boundary_invoke demo_env 1 ''delete-everything'' JNull init) =
     [(1, Thrown (Error ''Invalid channel: delete-everything''))] \<and>
   Thrown (Error ''Invalid channel: delete-everything'') \<noteq>
     Rejected (Error ''Invalid channel: delete-everything'')"
  by code_simp

text \<open>
  Claim C9. \<open>invoke('preview-file', {filePath})\<close> with a non-empty path that does not
  exist resolves with \<open>{error: 'File does not exist'}\<close>; the host only tested the path
  and logged the error.
\<close>

theorem preview_missing_file:
  assumes "fs e path = None" and "path \<noteq> []"
  shows "boundary_invoke e t ''preview-file'' (JObj [(''filePath'', JStr path)]) s =
           settle t (Resolved (JObj [(''error'', JStr ''File does not exist'')]))
             (emit [ExistsSync (JStr path),
                    ConsoleError ''Error in preview-file:'' [JStr ''File does not exist'']] s)"
  using assms
  by (simp add: boundary_invoke_def invoke_def validChannels_def ipcMain_handle_def preview_file_def
      preview_try_def lookup_def existsSync_def error_object_def err_text_def)

theorem preview_missing_file_witness:
  "fs demo_env ''/data/missing.csv'' = None \<and>
   settled (boundary_invoke demo_env 3 ''preview-file'' (JObj [(''filePath'', JStr ''/data/missing.csv'')]) init) =
     [(3, Resolved (JObj [(''error'', JStr ''File does not exist'')]))]"
proof -
  have a: "fs demo_env ''/data/missing.csv'' = None" by (simp add: demo_env_def)
  have b: "''/data/missing.csv'' \<noteq> []" by simp
  from preview_missing_file [OF a b, of 3 init] a
  show ?thesis by (simp add: settle_def emit_def init_def)
qed

lemma preview_rows_length: "length (preview_rows columns lines) = min 10 (length lines - 1)"
  by (simp add: preview_rows_def Let_def)

lemma preview_rows_nth:
  "i < min 10 (length lines - 1) \<Longrightarrow>
   preview_rows columns lines ! i = make_row columns (map clean_cell (js_split (CHR '','') (lines ! Suc i)))"
  by (simp add: preview_rows_def Let_def del: upt_Suc)

text \<open>
  Claim C8. \<open>invoke('preview-file', {filePath})\<close> on a file with eleven non-blank
  lines resolves with exactly ten preview rows, built from lines two to eleven in order,
  with the cells of the first line (trimmed, double quotes removed) as columns, and
  \<open>rows_total = 10\<close>.
\<close>

theorem preview_eleven_lines:
  assumes "fs e path = Some (File content)" and "path \<noteq> []"
    and "length (nonblank_lines content) = 11"
  shows "settled (boundary_invoke e t ''preview-file'' (JObj [(''filePath'', JStr path)]) s) =
           settled s @
           [(t, Resolved (JObj
              [(''preview'', JArr (preview_rows (map clean_cell (js_split (CHR '','') (hd (nonblank_lines content))))
                                                (nonblank_lines content))),
               (''columns'', JArr (map JStr (map clean_cell (js_split (CHR '','') (hd (nonblank_lines content)))))),
               (''rows_total'', JNum 10)]))] \<and>
         length (preview_rows (map clean_cell (js_split (CHR '','') (hd (nonblank_lines content))))
                              (nonblank_lines content)) = 10 \<and>
         (\<forall>i < 10. preview_rows (map clean_cell (js_split (CHR '','') (hd (nonblank_lines content))))
                                 (nonblank_lines content) ! i =
                    make_row (map clean_cell (js_split (CHR '','') (hd (nonblank_lines content))))
                             (map clean_cell (js_split (CHR '','') (nonblank_lines content ! Suc i))))"
proof -
  let ?lines = "nonblank_lines content"
  have ne: "?lines \<noteq> []" using assms(3) by auto
  have hd0: "?lines ! 0 = hd ?lines" using ne by (simp add: hd_conv_nth)
  have body: "snd (preview_try e (JObj [(''filePath'', JStr path)])) =
      Inr (JObj [(''preview'', JArr (preview_rows (map clean_cell (js_split (CHR '','') (hd ?lines))) ?lines)),
                 (''columns'', JArr (map JStr (map clean_cell (js_split (CHR '','') (hd ?lines))))),
                 (''rows_total'', JNum 10)])"
    using assms hd0 ne
    by (simp add: preview_try_def lookup_def existsSync_def readFileSync_def Let_def)
  have "settled (preview_file e t (JObj [(''filePath'', JStr path)]) s) =
          settled s @ [(t, Resolved (JObj [(''preview'', JArr (preview_rows (map clean_cell (js_split (CHR '','') (hd ?lines))) ?lines)),
                 (''columns'', JArr (map JStr (map clean_cell (js_split (CHR '','') (hd ?lines))))),
                 (''rows_total'', JNum 10)]))]"
    using body by (cases "preview_try e (JObj [(''filePath'', JStr path)])")
      (simp add: preview_file_def settle_def emit_def)
  moreover have "boundary_invoke e t ''preview-file'' (JObj [(''filePath'', JStr path)]) s =
      preview_file e t (JObj [(''filePath'', JStr path)]) s"
    by (simp add: boundary_invoke_def invoke_def validChannels_def ipcMain_handle_def)
  moreover have "length (preview_rows (map clean_cell (js_split (CHR '','') (hd ?lines))) ?lines) = 10"
    using assms(3) by (simp add: preview_rows_length)
  moreover have "\<forall>i < 10. preview_rows (map clean_cell (js_split (CHR '','') (hd ?lines))) ?lines ! i =
      make_row (map clean_cell (js_split (CHR '','') (hd ?lines))) (map clean_cell (js_split (CHR '','') (?lines ! Suc i)))"
    using assms(3) by (simp add: preview_rows_nth)
  ultimately show ?thesis by simp
qed

theorem preview_eleven_lines_witness:
  "fs demo_env ''/data/prices.csv'' = Some (File demo_csv) \<and>
   length (nonblank_lines demo_csv) = 11 \<and>
   settled (boundary_invoke demo_env 4 ''preview-file'' (JObj [(''filePath'', JStr ''/data/prices.csv'')]) init) =
     [(4, Resolved (JObj
        [(''preview'', JArr (preview_rows [''date'', ''open'', ''close''] (nonblank_lines demo_csv))),
         (''columns'', JArr [JStr ''date'', JStr ''open'', JStr ''close'']),
         (''rows_total'', JNum 10)]))] \<and>
   length (preview_rows [''date'', ''open'', ''close''] (nonblank_lines demo_csv)) = 10 \<and>
   preview_rows [''date'', ''open'', ''close''] (nonblank_lines demo_csv) ! 0 =
     JObj [(''date'', JStr ''2024-01-02''), (''open'', JStr ''10''), (''close'', JStr ''11'')]"
proof -
  have a: "fs demo_env ''/data/prices.csv'' = Some (File demo_csv)" by (simp add: demo_env_def)
  have b: "''/data/prices.csv'' \<noteq> []" by simp
  have c: "length (nonblank_lines demo_csv) = 11" by code_simp
  have d: "map clean_cell (js_split (CHR '','') (hd (nonblank_lines demo_csv))) = [''date'', ''open'', ''close'']"
    by code_simp
  have f: "preview_rows [''date'', ''open'', ''close''] (nonblank_lines demo_csv) ! 0 =
     JObj [(''date'', JStr ''2024-01-02''), (''open'', JStr ''10''), (''close'', JStr ''11'')]"
    by code_simp
  from preview_eleven_lines [OF a b c, of 4 init] a c d f
  show ?thesis by (simp add: init_def)
qed

subsection \<open>What the worker's events change\<close>

lemma stdout_fields:
  "settled (on_stdout e chunk s) = settled s"
  "timers (on_stdout e chunk s) = timers s"
  "pythonProcess (on_stdout e chunk s) = pythonProcess s"
  "spawned (on_stdout e chunk s) = spawned s"
  by (simp_all add: on_stdout_def emit_def split: option.splits)

lemma stderr_fields:
  "settled (on_stderr chunk s) = settled s"
  "timers (on_stderr chunk s) = timers s"
  "pythonProcess (on_stderr chunk s) = pythonProcess s"
  "spawned (on_stderr chunk s) = spawned s"
  by (simp_all add: on_stderr_def emit_def)

lemma close_fields:
  "settled (on_close code s) = settled s"
  "timers (on_close code s) = timers s"
  "pythonProcess (on_close code s) = None"
  "spawned (on_close code s) = spawned s"
  by (simp_all add: on_close_def emit_def)

text \<open>
  Claim C5, as the code has it. The handler hands each chunk of worker output to
  \<open>JSON.parse\<close> as a whole; it does not split it into lines. Whatever the chunk is, the
  handler returns normally and settles no promise and changes no timer and no handle. A
  chunk that \<open>JSON.parse\<close> rejects is logged under \<open>Python stdout:\<close>; a chunk that it
  accepts, whatever value comes out, is logged under \<open>Python response:\<close>. The chunks
  before and after a rejected chunk are handled as usual.
\<close>

theorem malformed_chunk_is_diagnostic:
  "settled (step e s (Stdout p chunk)) = settled s \<and>
   timers (step e s (Stdout p chunk)) = timers s \<and>
   pythonProcess (step e s (Stdout p chunk)) = pythonProcess s \<and>
   spawned (step e s (Stdout p chunk)) = spawned s \<and>
   (JSON_parse e chunk = None \<longrightarrow>
      trace (step e s (Stdout p chunk)) =
        (if p < spawned s then trace s @ [ConsoleLog ''Python stdout:'' [JStr chunk]] else trace s)) \<and>
   (\<forall>v. JSON_parse e chunk = Some v \<longrightarrow>
      trace (step e s (Stdout p chunk)) =
        (if p < spawned s then trace s @ [ConsoleLog ''Python response:'' [v]] else trace s)) \<and>
   (\<forall>before after v w.
      JSON_parse e chunk = None \<longrightarrow> p < spawned s \<longrightarrow>
      JSON_parse e before = Some v \<longrightarrow> JSON_parse e after = Some w \<longrightarrow>
      trace (run e s [Stdout p before, Stdout p chunk, Stdout p after]) =
        trace s @ [ConsoleLog ''Python response:'' [v],
                   ConsoleLog ''Python stdout:'' [JStr chunk],
                   ConsoleLog ''Python response:'' [w]])"
  by (simp add: run_def on_stdout_def emit_def split: option.splits)

theorem malformed_chunk_is_diagnostic_witness:
  "JSON_parse demo_env ''Loading model...'' = None \<and>
   trace (run demo_env (run demo_env init [Call_start 0, Fire 0, Call_sendToPython 7 ''ping'' JUndefined])
            [Stdout 0 frame_alpha, Stdout 0 ''Loading model...'', Stdout 0 frame_beta]) =
     trace (run demo_env init [Call_start 0, Fire 0, Call_sendToPython 7 ''ping'' JUndefined]) @
       [ConsoleLog ''Python response:'' [payload_alpha],
        ConsoleLog ''Python stdout:'' [JStr ''Loading model...''],
        ConsoleLog ''Python response:'' [payload_beta]] \<and>
   timers (step demo_env (run demo_env init [Call_start 0, Fire 0, Call_sendToPython 7 ''ping'' JUndefined])
            (Stdout 0 ''Loading model...'')) = [MockResolve ''ping'' (W_caller 7)]"
proof -
  have a: "JSON_parse demo_env ''Loading model...'' = None" by code_simp
  have b: "JSON_parse demo_env frame_alpha = Some payload_alpha" by code_simp
  have c: "JSON_parse demo_env frame_beta = Some payload_beta" by code_simp
  have d: "0 < spawned (run demo_env init [Call_start 0, Fire 0, Call_sendToPython 7 ''ping'' JUndefined])"
    by code_simp
  have f: "timers (run demo_env init [Call_start 0, Fire 0, Call_sendToPython 7 ''ping'' JUndefined]) =
      [MockResolve ''ping'' (W_caller 7)]"
    by code_simp
  from malformed_chunk_is_diagnostic [of demo_env
      "run demo_env init [Call_start 0, Fire 0, Call_sendToPython 7 ''ping'' JUndefined]" 0
      "''Loading model...''"] a b c d f
  show ?thesis by simp
qed

text \<open>
  The claim as written fails, in two ways. A line holding only an opening brace does not
  parse, yet the two-line chunk that begins with it parses as a whole and is logged as a
  response. The line \<open>42\<close> is no structured record, yet it parses and is logged as a
  response.
\<close>

theorem unstructured_line_logged_as_response:
  "js_split (CHR 0x0A) chunk_two_lines ! 0 = ''{'' \<and>
   JSON_parse parse_env ''{'' = None \<and>
   JSON_parse parse_env (js_split (CHR 0x0A) chunk_two_lines ! 1) = None \<and>
   trace (step parse_env (run parse_env init [Call_start 0, Fire 0]) (Stdout 0 chunk_two_lines)) =
     trace (run parse_env init [Call_start 0, Fire 0]) @
       [ConsoleLog ''Python response:'' [JObj [(''ready'', JBool True)]]] \<and>
   JSON_parse parse_env ''42'' = Some (JNum 42) \<and>
   trace (step parse_env (run parse_env init [Call_start 0, Fire 0]) (Stdout 0 ''42'')) =
     trace (run parse_env init [Call_start 0, Fire 0]) @
       [ConsoleLog ''Python response:'' [JNum 42]]"
  by code_simp

text \<open>
  Claim C3, as the code has it. When a spawned worker closes, the field of the service is
  cleared, so the service reports no running worker; the close settles no promise and
  leaves every pending timer in place.
\<close>

theorem close_clears_handle_only:
  assumes "p < spawned s"
  shows "pythonProcess (step e s (Close p code)) = None \<and>
         settled (step e s (Close p code)) = settled s \<and>
         timers (step e s (Close p code)) = timers s"
  using assms by (simp add: close_fields)

theorem close_clears_handle_only_witness:
  "0 < spawned (run demo_env init [Call_start 0, Fire 0, Call_sendToPython 7 ''ping'' JUndefined]) \<and>
   pythonProcess (step demo_env (run demo_env init [Call_start 0, Fire 0, Call_sendToPython 7 ''ping'' JUndefined])
                    (Close 0 1)) = None \<and>
   timers (step demo_env (run demo_env init [Call_start 0, Fire 0, Call_sendToPython 7 ''ping'' JUndefined])
             (Close 0 1)) = [MockResolve ''ping'' (W_caller 7)]"
proof -
  have d: "0 < spawned (run demo_env init [Call_start 0, Fire 0, Call_sendToPython 7 ''ping'' JUndefined])"
    by code_simp
  have f: "timers (run demo_env init [Call_start 0, Fire 0, Call_sendToPython 7 ''ping'' JUndefined]) =
      [MockResolve ''ping'' (W_caller 7)]"
    by code_simp
  from close_clears_handle_only [OF d, of demo_env 1] d f show ?thesis by simp
qed

text \<open>
  The claim as written fails: a call is pending when the worker exits with code 1; the exit
  leaves it pending, and its timer then resolves it with the mock response.
\<close>

theorem pending_call_survives_exit:
  "pythonProcess (run demo_env init
      [Call_start 0, Fire 0, Call_sendToPython 7 ''ping'' JUndefined, Close 0 1]) = None \<and>
   settled (run demo_env init
      [Call_start 0, Fire 0, Call_sendToPython 7 ''ping'' JUndefined, Close 0 1]) =
     [(0, Resolved (JBool True))] \<and>
   timers (run demo_env init
      [Call_start 0, Fire 0, Call_sendToPython 7 ''ping'' JUndefined, Close 0 1]) =
     [MockResolve ''ping'' (W_caller 7)] \<and>
   settled (run demo_env init
      [Call_start 0, Fire 0, Call_sendToPython 7 ''ping'' JUndefined, Close 0 1, Fire 0]) =
     [(0, Resolved (JBool True)), (7, Resolved (mock_response ''ping''))]"
  by code_simp

subsection \<open>Fields that settling, logging and sending leave alone\<close>

lemma settle_fields:
  "pythonProcess (settle t out s) = pythonProcess s"
  "spawned (settle t out s) = spawned s"
  "timers (settle t out s) = timers s"
  "trace (settle t out s) = trace s"
  "settled (settle t out s) = settled s @ [(t, out)]"
  by (simp_all add: settle_def)

lemma emit_fields:
  "pythonProcess (emit es s) = pythonProcess s"
  "spawned (emit es s) = spawned s"
  "timers (emit es s) = timers s"
  "settled (emit es s) = settled s"
  "trace (emit es s) = trace s @ es"
  by (simp_all add: emit_def)

lemma send_request_live:
  assumes "pythonProcess s = Some p"
  shows "send_request e action data w s =
           (emit [StdinWrite p (JSON_stringify e
                    (JObj [(''action'', JStr action), (''data'', data), (''timestamp'', JStr (now e))]) @ [CHR 0x0A]),
                  ConsoleLog ''Sent to Python:''
                    [JObj [(''action'', JStr action), (''data'', data), (''timestamp'', JStr (now e))]]] s)
             \<lparr>timers := timers s @ [MockResolve action w]\<rparr>"
  using assms by (simp add: send_request_def Let_def)

lemma preview_file_process:
  "pythonProcess (preview_file e t data s) = pythonProcess s"
  "spawned (preview_file e t data s) = spawned s"
  by (cases "preview_try e data"; simp add: preview_file_def settle_fields emit_fields split: sum.splits)+

lemma import_catch_fields:
  "pythonProcess (import_catch t err s) = pythonProcess s"
  "spawned (import_catch t err s) = spawned s"
  "timers (import_catch t err s) = timers s"
  "settled (import_catch t err s) = settled s @ [(t, Resolved (error_object err))]"
  by (simp_all add: import_catch_def settle_fields emit_fields)

lemma open_file_dialog_process:
  "pythonProcess (open_file_dialog e t s) = pythonProcess s"
  "spawned (open_file_dialog e t s) = spawned s"
  by (simp_all add: open_file_dialog_def settle_fields emit_fields split: prod.splits)

text \<open>
  Claim C6, as the code has it. A request written to the worker arms one timer and carries
  the fields \<open>action\<close>, \<open>data\<close> and \<open>timestamp\<close> only, no identifier. When the
  timer fires, whatever the worker sent or did not send, the call is resolved with the mock
  response and the timer is gone from the pending ones.
\<close>

theorem mock_timer_resolves:
  "(pythonProcess s = Some p \<longrightarrow>
      step e s (Call_sendToPython t action data) =
        (emit [StdinWrite p (JSON_stringify e
                 (JObj [(''action'', JStr action), (''data'', data), (''timestamp'', JStr (now e))]) @ [CHR 0x0A]),
               ConsoleLog ''Sent to Python:''
                 [JObj [(''action'', JStr action), (''data'', data), (''timestamp'', JStr (now e))]]] s)
          \<lparr>timers := timers s @ [MockResolve action (W_caller t)]\<rparr>) \<and>
   (i < length (timers s) \<longrightarrow> timers s ! i = MockResolve action (W_caller t) \<longrightarrow>
      step e s (Fire i) =
        settle t (Resolved (mock_response action)) (s\<lparr>timers := remove_nth i (timers s)\<rparr>))"
  by (simp add: sendToPython_def send_request_live)

theorem mock_timer_resolves_witness:
  "pythonProcess (run demo_env init [Call_start 0, Fire 0]) = Some 0 \<and>
   timers (step demo_env (run demo_env init [Call_start 0, Fire 0]) (Call_sendToPython 7 ''ping'' JUndefined)) =
     [MockResolve ''ping'' (W_caller 7)] \<and>
   settled (step demo_env (run demo_env init [Call_start 0, Fire 0, Call_sendToPython 7 ''ping'' JUndefined]) (Fire 0)) =
     [(0, Resolved (JBool True)), (7, Resolved (mock_response ''ping''))] \<and>
   timers (step demo_env (run demo_env init [Call_start 0, Fire 0, Call_sendToPython 7 ''ping'' JUndefined]) (Fire 0)) = []"
proof -
  have a: "pythonProcess (run demo_env init [Call_start 0, Fire 0]) = Some 0" by code_simp
  have a': "timers (run demo_env init [Call_start 0, Fire 0]) = []" by code_simp
  have b: "timers (run demo_env init [Call_start 0, Fire 0, Call_sendToPython 7 ''ping'' JUndefined]) =
      [MockResolve ''ping'' (W_caller 7)]" by code_simp
  have c: "settled (run demo_env init [Call_start 0, Fire 0, Call_sendToPython 7 ''ping'' JUndefined]) =
      [(0, Resolved (JBool True))]" by code_simp
  from mock_timer_resolves [of "run demo_env init [Call_start 0, Fire 0]" 0 demo_env 7 "''ping''" JUndefined 0]
    mock_timer_resolves [of "run demo_env init [Call_start 0, Fire 0, Call_sendToPython 7 ''ping'' JUndefined]"
      0 demo_env 7 "''ping''" JUndefined 0] a a' b c
  show ?thesis by (simp add: emit_fields settle_fields remove_nth_def)
qed

text \<open>
  The claim as written fails: the worker never answers the call, and at its timer the call
  is resolved, not rejected.
\<close>

theorem unanswered_call_is_resolved:
  "settled (run demo_env init [Call_start 0, Fire 0, Call_sendToPython 7 ''ping'' JUndefined, Fire 0]) =
     [(0, Resolved (JBool True)), (7, Resolved (mock_response ''ping''))] \<and>
   timers (run demo_env init [Call_start 0, Fire 0, Call_sendToPython 7 ''ping'' JUndefined, Fire 0]) = []"
  by code_simp

text \<open>
  Claim C1 fails on the code. Two calls are in flight; the worker answers the second, then
  the first, each frame carrying its call's identifier and payload. The frames are only
  logged, and each promise is resolved with the mock response built from its own action
  name, not with the payload of its frame.
\<close>

theorem concurrent_calls_get_mock:
  "settled (run demo_env init
      [Call_start 0, Fire 0,
       Call_sendToPython 1 ''alpha'' JUndefined, Call_sendToPython 2 ''beta'' JUndefined,
       Stdout 0 frame_beta, Stdout 0 frame_alpha, Fire 0, Fire 0]) =
     [(0, Resolved (JBool True)),
      (1, Resolved (mock_response ''alpha'')),
      (2, Resolved (mock_response ''beta''))] \<and>
   JSON_parse demo_env frame_alpha = Some payload_alpha \<and>
   JSON_parse demo_env frame_beta = Some payload_beta \<and>
   mock_response ''alpha'' \<noteq> payload_alpha \<and>
   mock_response ''beta'' \<noteq> payload_beta"
  by code_simp

subsection \<open>The start promise\<close>

lemma run_Nil [simp]: "run e s [] = s"
  by (simp add: run_def)

lemma run_Cons [simp]: "run e s (ev # evs) = run e (step e s ev) evs"
  by (simp add: run_def)

lemma run_append: "run e s (evs @ evs') = run e (run e s evs) evs'"
  by (simp add: run_def)

lemma worker_event_step:
  assumes "is_worker_event ev"
  shows "timers (step e s ev) = timers s"
    and "settled (step e s ev) = settled s"
    and "spawned (step e s ev) = spawned s"
    and "pythonProcess (step e s ev) = (if closes (spawned s) ev then None else pythonProcess s)"
  using assms by (cases ev; simp add: stdout_fields stderr_fields close_fields)+

lemma worker_events_run:
  assumes "\<forall>ev \<in> set evs. is_worker_event ev"
  shows "timers (run e s evs) = timers s \<and> settled (run e s evs) = settled s \<and>
         spawned (run e s evs) = spawned s \<and>
         pythonProcess (run e s evs) = (if list_ex (closes (spawned s)) evs then None else pythonProcess s)"
  using assms
proof (induction evs arbitrary: s)
  case Nil
  then show ?case by simp
next
  case (Cons ev evs)
  then have w: "is_worker_event ev" and ws: "\<forall>ev \<in> set evs. is_worker_event ev" by simp_all
  show ?case
    using Cons.IH [OF ws, of "step e s ev"] worker_event_step [OF w, of e s]
    by simp
qed

lemma start_wait_outcome:
  assumes "\<forall>ev \<in> set evs. is_worker_event ev"
  shows "settled (run e s (Call_start t # evs @ [Fire (length (timers s))])) =
           settled s @
           [(t, if list_ex (closes (Suc (spawned s))) evs
                then Rejected (Error ''Failed to start Python process'')
                else Resolved (JBool True))]"
proof -
  let ?s1 = "start e (SW_caller t) s"
  let ?s2 = "run e ?s1 evs"
  have s1: "timers ?s1 = timers s @ [StartCheck (SW_caller t)]" "settled ?s1 = settled s"
    "spawned ?s1 = Suc (spawned s)" "pythonProcess ?s1 = Some (spawned s)"
    by (simp_all add: start_def Let_def)
  from worker_events_run [OF assms, of e ?s1] s1
  have s2: "timers ?s2 = timers s @ [StartCheck (SW_caller t)]" "settled ?s2 = settled s"
    "pythonProcess ?s2 = (if list_ex (closes (Suc (spawned s))) evs then None else Some (spawned s))"
    by simp_all
  have "run e s (Call_start t # evs @ [Fire (length (timers s))]) = step e ?s2 (Fire (length (timers s)))"
    by (simp add: run_append)
  then show ?thesis using s2 by (simp add: settle_fields emit_fields)
qed

text \<open>
  Claim C7, as the code has it. The promise of \<open>start\<close> is settled by its check alone,
  and the check reads only the field of the service: it resolves with \<open>true\<close> when the
  field holds a handle at that moment, and is rejected with
  \<open>Failed to start Python process\<close> when the field is empty. Nothing of the process is
  observed. With only worker events during the wait, the field is empty at the check
  exactly when a spawned process has closed, so \<open>start\<close> is rejected exactly then; a
  process from which no event arrives counts as started.
\<close>

theorem start_check_reads_handle:
  "(i < length (timers s) \<longrightarrow> timers s ! i = StartCheck (SW_caller t) \<longrightarrow>
      settled (step e s (Fire i)) =
        settled s @
        [(t, if pythonProcess s \<noteq> None then Resolved (JBool True)
             else Rejected (Error ''Failed to start Python process''))] \<and>
      timers (step e s (Fire i)) = remove_nth i (timers s) \<and>
      pythonProcess (step e s (Fire i)) = pythonProcess s) \<and>
   ((\<forall>ev \<in> set evs. is_worker_event ev) \<longrightarrow>
      settled (run e s (Call_start t # evs @ [Fire (length (timers s))])) =
        settled s @
        [(t, if list_ex (closes (Suc (spawned s))) evs
             then Rejected (Error ''Failed to start Python process'')
             else Resolved (JBool True))])"
  using start_wait_outcome [of evs e s t]
  by (simp add: settle_fields emit_fields)

theorem start_check_reads_handle_witness:
  "is_worker_event (Stdout 0 ''ready'') \<and>
   settled (run demo_env init [Call_start 9, Stdout 0 ''ready'', Fire 0]) = [(9, Resolved (JBool True))] \<and>
   is_worker_event (Close 0 1) \<and>
   settled (run demo_env init [Call_start 9, Close 0 1, Fire 0]) =
     [(9, Rejected (Error ''Failed to start Python process''))] \<and>
   timers (run demo_env init [Call_start 9, Close 0 1]) = [StartCheck (SW_caller 9)] \<and>
   pythonProcess (run demo_env init [Call_start 9, Close 0 1]) = None \<and>
   settled (step demo_env (run demo_env init [Call_start 9, Close 0 1]) (Fire 0)) =
     [(9, Rejected (Error ''Failed to start Python process''))]"
proof -
  have a: "\<forall>ev \<in> set [Stdout 0 ''ready'']. is_worker_event ev" by simp
  have b: "\<forall>ev \<in> set [Close 0 1]. is_worker_event ev" by simp
  have c: "timers (run demo_env init [Call_start 9, Close 0 1]) = [StartCheck (SW_caller 9)]"
    by code_simp
  have d: "pythonProcess (run demo_env init [Call_start 9, Close 0 1]) = None" by code_simp
  have f: "settled (run demo_env init [Call_start 9, Close 0 1]) = []" by code_simp
  from a b c d f
    start_check_reads_handle [of 0 "run demo_env init [Call_start 9, Close 0 1]" 9 demo_env "[]"]
    start_check_reads_handle [of 0 init 9 demo_env "[Stdout 0 ''ready'']"]
    start_check_reads_handle [of 0 init 9 demo_env "[Close 0 1]"]
  show ?thesis by (simp add: init_def)
qed

text \<open>
  The claim as written fails, in two ways. With no event at all from the spawned process
  (nothing is observed of it) \<open>start\<close> still resolves with \<open>true\<close>. And when the
  process spawned by \<open>start\<close> has closed during the wait but a later request has spawned
  another, the check finds the other handle and \<open>start\<close> resolves with \<open>true\<close>.
\<close>

theorem start_resolves_unobserved:
  "settled (run demo_env init [Call_start 9, Fire 0]) = [(9, Resolved (JBool True))] \<and>
   trace (run demo_env init [Call_start 9, Fire 0]) =
     [ConsoleLog ''Starting Python backend:'' [JStr ''/app/backend/main.py''],
      Spawn 0 ''python'' [''/app/backend/main.py''],
      ConsoleLog ''Python backend process started'' []] \<and>
   pythonProcess (run demo_env init [Call_start 9, Close 0 1]) = None \<and>
   pythonProcess (run demo_env init
      [Call_start 9, Close 0 1, Call_sendToPython 2 ''ping'' JUndefined]) = Some 1 \<and>
   settled (run demo_env init
      [Call_start 9, Close 0 1, Call_sendToPython 2 ''ping'' JUndefined, Fire 0]) =
     [(9, Resolved (JBool True))]"
  by code_simp

subsection \<open>Handlers behind the boundary\<close>

lemma import_after_settled:
  "\<exists>v. settled (import_after t symbol r s) = settled s @ [(t, Resolved v)]"
  by (auto simp: import_after_def import_catch_fields settle_fields emit_fields split: sum.splits)

lemma import_after_timers: "timers (import_after t symbol r s) = timers s"
  by (auto simp: import_after_def import_catch_fields settle_fields emit_fields split: sum.splits)

lemma health_after_settled:
  "\<exists>v. settled (health_after e t r s) = settled s @ [(t, Resolved v)]"
  by (auto simp: health_after_def Let_def settle_fields emit_fields split: sum.splits)

lemma health_after_timers: "timers (health_after e t r s) = timers s"
  by (auto simp: health_after_def Let_def settle_fields emit_fields split: sum.splits)

lemma ping_after_settled:
  "\<exists>v. settled (ping_after t r s) = settled s @ [(t, Resolved v)]"
  by (auto simp: ping_after_def settle_fields split: sum.splits)

lemma ping_after_timers: "timers (ping_after t r s) = timers s"
  by (auto simp: ping_after_def settle_fields split: sum.splits)

lemma resume_timers: "timers (resume e w r s) = timers s"
  by (cases w) (simp_all add: settle_fields health_after_timers ping_after_timers import_after_timers)

lemma resume_handler_settled:
  assumes "handler_waiter w"
  shows "\<exists>v. settled (resume e w r s) = settled s @ [(waiter_ticket w, Resolved v)]"
  using assms
  by (cases w) (simp_all add: health_after_settled ping_after_settled import_after_settled)

lemma sendToPython_registers:
  "settled (sendToPython e action data w s) = settled s \<and>
   (\<exists>tm. timers (sendToPython e action data w s) = timers s @ [tm] \<and>
         handler_timer tm = handler_waiter w \<and> timer_ticket tm = waiter_ticket w)"
proof (cases "pythonProcess s")
  case None
  then show ?thesis by (simp add: sendToPython_def start_def Let_def)
next
  case (Some p)
  then show ?thesis by (simp add: sendToPython_def send_request_live emit_fields)
qed

lemma preview_file_settled:
  "\<exists>v. settled (preview_file e t data s) = settled s @ [(t, Resolved v)]"
  by (cases "preview_try e data") (auto simp: preview_file_def settle_fields emit_fields split: sum.splits)

lemma preview_file_timers: "timers (preview_file e t data s) = timers s"
  by (cases "preview_try e data") (auto simp: preview_file_def settle_fields emit_fields split: sum.splits)

lemma import_data_answers:
  "(\<exists>v. settled (import_data e t data s) = settled s @ [(t, Resolved v)] \<and>
        timers (import_data e t data s) = timers s) \<or>
   (settled (import_data e t data s) = settled s \<and>
    (\<exists>tm. timers (import_data e t data s) = timers s @ [tm] \<and> handler_timer tm \<and> timer_ticket tm = t))"
proof -
  have reg: "settled (sendToPython e action d (W_import t symbol) (emit es s)) = settled s \<and>
      (\<exists>tm. timers (sendToPython e action d (W_import t symbol) (emit es s)) = timers s @ [tm] \<and>
            handler_timer tm \<and> timer_ticket tm = t)" for action d symbol es
    using sendToPython_registers [of e action d "W_import t symbol" "emit es s"]
    by (simp add: emit_fields)
  show ?thesis
    using reg by (auto simp: import_data_def import_catch_fields emit_fields split: sum.splits)
qed

lemma handler_call_answers:
  assumes "handler_call ev = Some t"
  shows "(\<exists>v. settled (step e s ev) = settled s @ [(t, Resolved v)] \<and> timers (step e s ev) = timers s) \<or>
         (settled (step e s ev) = settled s \<and>
          (\<exists>tm. timers (step e s ev) = timers s @ [tm] \<and> handler_timer tm \<and> timer_ticket tm = t))"
proof (cases ev)
  case (Invoke t' channel data)
  with assms have t: "t' = t"
    and ch: "channel = ''health-check'' \<or> channel = ''preview-file'' \<or> channel = ''import-data''"
    by (auto split: if_splits)
  from ch have fwd: "step e s ev = ipcMain_handle e t channel data s"
    using Invoke t by (auto simp: boundary_invoke_def invoke_def validChannels_def)
  from ch show ?thesis
  proof (elim disjE)
    assume "channel = ''health-check''"
    then show ?thesis
      using fwd sendToPython_registers [of e "''health-check''" JUndefined "W_health t" s]
      by (simp add: ipcMain_handle_def health_check_def)
  next
    assume "channel = ''preview-file''"
    then show ?thesis
      using fwd preview_file_settled [of e t data s] preview_file_timers [of e t data s]
      by (simp add: ipcMain_handle_def)
  next
    assume "channel = ''import-data''"
    then show ?thesis
      using fwd import_data_answers [of e t data s]
      by (simp add: ipcMain_handle_def)
  qed
next
  case (PingPython t')
  with assms have "t' = t" by simp
  then show ?thesis
    using PingPython sendToPython_registers [of e "''ping''" JUndefined "W_ping t" s]
    by (simp add: ipcMain_handle_def ping_python_def)
qed (use assms in simp_all)

lemma fire_handler_answers:
  assumes "handler_timer tm"
  shows "(\<exists>v. settled (fire e tm s) = settled s @ [(timer_ticket tm, Resolved v)] \<and>
             timers (fire e tm s) = timers s) \<or>
         (settled (fire e tm s) = settled s \<and>
          (\<exists>tm'. timers (fire e tm s) = timers s @ [tm'] \<and> handler_timer tm' \<and>
                 timer_ticket tm' = timer_ticket tm))"
proof (cases tm)
  case (StartCheck sw)
  show ?thesis
  proof (cases sw)
    case (SW_caller t)
    with StartCheck assms show ?thesis by simp
  next
    case (SW_send action data w)
    with StartCheck assms have hw: "handler_waiter w" by simp
    show ?thesis
    proof (cases "pythonProcess s")
      case None
      then show ?thesis
        using StartCheck SW_send resume_handler_settled [OF hw, of e _ s] resume_timers [of e w _ s]
        by simp
    next
      case (Some p)
      then show ?thesis
        using StartCheck SW_send hw
        by (simp add: send_request_live emit_fields)
    qed
  qed
next
  case (MockResolve action w)
  with assms have hw: "handler_waiter w" by simp
  then show ?thesis
    using MockResolve resume_handler_settled [OF hw, of e _ s] resume_timers [of e w _ s]
    by simp
qed

lemma fire_weight:
  "sum_list (map timer_weight (timers (fire e tm s))) < sum_list (map timer_weight (timers s)) + timer_weight tm"
proof (cases tm)
  case (StartCheck sw)
  show ?thesis
  proof (cases sw)
    case (SW_caller t)
    with StartCheck show ?thesis by (simp add: settle_fields emit_fields)
  next
    case (SW_send action data w)
    show ?thesis
    proof (cases "pythonProcess s")
      case None
      then show ?thesis using StartCheck SW_send by (simp add: resume_timers)
    next
      case (Some p)
      then show ?thesis using StartCheck SW_send by (simp add: send_request_live emit_fields)
    qed
  qed
next
  case (MockResolve action w)
  then show ?thesis by (simp add: resume_timers)
qed

subsection \<open>Runs of handler events\<close>

lemma set_remove_nth_subset: "set (remove_nth i xs) \<subseteq> set xs"
  using set_take_subset [of i xs] set_drop_subset [of "Suc i" xs]
  by (auto simp: remove_nth_def)

lemma set_remove_nth_insert:
  assumes "i < length xs"
  shows "set xs = insert (xs ! i) (set (remove_nth i xs))"
proof -
  have "xs = take i xs @ xs ! i # drop (Suc i) xs"
    using assms by (rule id_take_nth_drop)
  then have "set xs = set (take i xs @ xs ! i # drop (Suc i) xs)" by simp
  then show ?thesis by (simp add: remove_nth_def)
qed

lemma background_step:
  assumes "background_event ev" and "\<forall>i. ev \<noteq> Fire i"
  shows "settled (step e s ev) = settled s" and "timers (step e s ev) = timers s"
  using assms
  by (cases ev; simp add: stdout_fields stderr_fields close_fields stop_def emit_fields split: option.splits)+

lemma handler_step_invariant:
  assumes ev: "handler_event ev"
    and tm: "\<forall>tm \<in> set (timers s). handler_timer tm"
    and res: "\<forall>(t, out) \<in> set (settled s). is_resolved out"
  shows "(\<forall>tm \<in> set (timers (step e s ev)). handler_timer tm) \<and>
         (\<forall>(t, out) \<in> set (settled (step e s ev)). is_resolved out)"
proof (cases "handler_call ev")
  case (Some t)
  from handler_call_answers [OF Some, of e s] tm res show ?thesis by auto
next
  case None
  with ev have bg: "background_event ev" by (simp add: handler_event_def)
  show ?thesis
  proof (cases "\<exists>i. ev = Fire i")
    case False
    then show ?thesis using background_step [OF bg, of e s] tm res by simp
  next
    case True
    then obtain i where i: "ev = Fire i" by blast
    show ?thesis
    proof (cases "i < length (timers s)")
      case False
      then show ?thesis using i tm res by simp
    next
      case True
      let ?s0 = "s\<lparr>timers := remove_nth i (timers s)\<rparr>"
      have h: "handler_timer (timers s ! i)" using True tm by simp
      have tm0: "\<forall>tm \<in> set (timers ?s0). handler_timer tm"
        using tm set_remove_nth_subset [of i "timers s"] by auto
      have res0: "\<forall>(t, out) \<in> set (settled ?s0). is_resolved out" using res by simp
      have st: "step e s ev = fire e (timers s ! i) ?s0" using i True by simp
      from fire_handler_answers [OF h, of e ?s0] tm0 res0 show ?thesis
        unfolding st by auto
    qed
  qed
qed

lemma handler_step_keeps_track:
  assumes ev: "handler_event ev"
    and tm: "\<forall>tm \<in> set (timers s). handler_timer tm"
    and acc: "t \<in> fst ` set (settled s) \<or> t \<in> timer_ticket ` set (timers s)"
  shows "t \<in> fst ` set (settled (step e s ev)) \<or> t \<in> timer_ticket ` set (timers (step e s ev))"
proof (cases "handler_call ev")
  case (Some t')
  from handler_call_answers [OF Some, of e s] acc show ?thesis by auto
next
  case None
  with ev have bg: "background_event ev" by (simp add: handler_event_def)
  show ?thesis
  proof (cases "\<exists>i. ev = Fire i")
    case False
    then show ?thesis using background_step [OF bg, of e s] acc by simp
  next
    case True
    then obtain i where i: "ev = Fire i" by blast
    show ?thesis
    proof (cases "i < length (timers s)")
      case False
      then show ?thesis using i acc by simp
    next
      case True
      let ?s0 = "s\<lparr>timers := remove_nth i (timers s)\<rparr>"
      have h: "handler_timer (timers s ! i)" using True tm by simp
      have st: "step e s ev = fire e (timers s ! i) ?s0" using i True by simp
      have split: "set (timers s) = insert (timers s ! i) (set (timers ?s0))"
        using set_remove_nth_insert [OF True] by simp
      have acc0: "t \<in> fst ` set (settled ?s0) \<or> t = timer_ticket (timers s ! i) \<or>
          t \<in> timer_ticket ` set (timers ?s0)"
        using acc split by auto
      from fire_handler_answers [OF h, of e ?s0] acc0 show ?thesis
        unfolding st by auto
    qed
  qed
qed

lemma handler_run_invariant:
  assumes "\<forall>ev \<in> set evs. handler_event ev"
    and "\<forall>tm \<in> set (timers s). handler_timer tm"
    and "\<forall>(t, out) \<in> set (settled s). is_resolved out"
  shows "(\<forall>tm \<in> set (timers (run e s evs)). handler_timer tm) \<and>
         (\<forall>(t, out) \<in> set (settled (run e s evs)). is_resolved out)"
  using assms
proof (induction evs arbitrary: s)
  case Nil
  then show ?case by simp
next
  case (Cons ev evs)
  from Cons.prems have ev: "handler_event ev" and evs: "\<forall>ev \<in> set evs. handler_event ev" by simp_all
  from handler_step_invariant [OF ev Cons.prems(2) Cons.prems(3), of e]
  have "\<forall>tm \<in> set (timers (step e s ev)). handler_timer tm"
    and "\<forall>(t, out) \<in> set (settled (step e s ev)). is_resolved out" by simp_all
  from Cons.IH [OF evs this] show ?case by simp
qed

lemma handler_run_keeps_track:
  assumes "\<forall>ev \<in> set evs. handler_event ev"
    and "\<forall>tm \<in> set (timers s). handler_timer tm"
    and "\<forall>(t, out) \<in> set (settled s). is_resolved out"
    and "t \<in> fst ` set (settled s) \<or> t \<in> timer_ticket ` set (timers s)"
  shows "t \<in> fst ` set (settled (run e s evs)) \<or> t \<in> timer_ticket ` set (timers (run e s evs))"
  using assms
proof (induction evs arbitrary: s)
  case Nil
  then show ?case by simp
next
  case (Cons ev evs)
  from Cons.prems have ev: "handler_event ev" and evs: "\<forall>ev \<in> set evs. handler_event ev" by simp_all
  from handler_step_invariant [OF ev Cons.prems(2) Cons.prems(3), of e]
  have inv: "\<forall>tm \<in> set (timers (step e s ev)). handler_timer tm"
    "\<forall>(t, out) \<in> set (settled (step e s ev)). is_resolved out" by simp_all
  from handler_step_keeps_track [OF ev Cons.prems(2) Cons.prems(4), of e]
  have "t \<in> fst ` set (settled (step e s ev)) \<or> t \<in> timer_ticket ` set (timers (step e s ev))" .
  from Cons.IH [OF evs inv this] show ?case by simp
qed

lemma handler_run_tracks_calls:
  assumes "\<forall>ev \<in> set evs. handler_event ev"
    and "\<forall>tm \<in> set (timers s). handler_timer tm"
    and "\<forall>(t, out) \<in> set (settled s). is_resolved out"
    and "ev \<in> set evs" and "handler_call ev = Some t"
  shows "t \<in> fst ` set (settled (run e s evs)) \<or> t \<in> timer_ticket ` set (timers (run e s evs))"
  using assms
proof (induction evs arbitrary: s)
  case Nil
  then show ?case by simp
next
  case (Cons ev' evs)
  from Cons.prems have ev': "handler_event ev'" and evs: "\<forall>ev \<in> set evs. handler_event ev" by simp_all
  from handler_step_invariant [OF ev' Cons.prems(2) Cons.prems(3), of e]
  have inv: "\<forall>tm \<in> set (timers (step e s ev')). handler_timer tm"
    "\<forall>(t, out) \<in> set (settled (step e s ev')). is_resolved out" by simp_all
  show ?case
  proof (cases "ev = ev'")
    case True
    with Cons.prems(5) have "handler_call ev' = Some t" by simp
    from handler_call_answers [OF this, of e s]
    have "t \<in> fst ` set (settled (step e s ev')) \<or> t \<in> timer_ticket ` set (timers (step e s ev'))"
      by auto
    from handler_run_keeps_track [OF evs inv this] show ?thesis by simp
  next
    case False
    with Cons.prems(4) have "ev \<in> set evs" by simp
    from Cons.IH [OF evs inv this Cons.prems(5)] show ?thesis by simp
  qed
qed

subsection \<open>Firing every timer\<close>

lemma timer_weight_pos: "0 < timer_weight tm"
  by (cases tm) simp_all

lemma weight_zero_empty:
  assumes "sum_list (map timer_weight xs) = 0"
  shows "xs = []"
proof (cases xs)
  case Nil
  then show ?thesis .
next
  case (Cons x xs')
  with assms timer_weight_pos [of x] show ?thesis by simp
qed

lemma fire_all_empties:
  assumes "sum_list (map timer_weight (timers s)) \<le> n"
  shows "timers (run e s (replicate n (Fire 0))) = []"
  using assms
proof (induction n arbitrary: s)
  case 0
  then show ?case by (simp add: weight_zero_empty)
next
  case (Suc n)
  show ?case
  proof (cases "timers s")
    case Nil
    then have "step e s (Fire 0) = s" by simp
    moreover have "sum_list (map timer_weight (timers s)) \<le> n" using Nil by simp
    ultimately show ?thesis using Suc.IH [of s] by simp
  next
    case (Cons tm tms)
    then have st: "step e s (Fire 0) = fire e tm (s\<lparr>timers := tms\<rparr>)"
      by (simp add: remove_nth_def)
    from fire_weight [of e tm "s\<lparr>timers := tms\<rparr>"] Suc.prems Cons
    have "sum_list (map timer_weight (timers (step e s (Fire 0)))) \<le> n"
      unfolding st by simp
    from Suc.IH [OF this] show ?thesis by simp
  qed
qed

lemma drain_empties: "timers (drain e s) = []"
  by (simp add: drain_def fire_all_empties)

text \<open>
  Claim C10. The handlers \<open>health-check\<close>, \<open>preview-file\<close>, \<open>import-data\<close> and
  \<open>ping-python\<close> never reject: in every run made of invocations of these handlers,
  worker events, timers and \<open>stop\<close>, each promise that has ended has resolved. They
  always resolve: once the pending timers have fired, every invocation of the run has a
  resolved promise. An error thrown inside a handler, or a rejection of the call it awaits,
  becomes the resolved object \<open>{error: message}\<close> (for \<open>health-check\<close>, an object with
  \<open>status: 'error'\<close> and that \<open>error\<close> field).
\<close>

theorem handlers_always_resolve:
  assumes "\<forall>ev \<in> set evs. handler_event ev"
  shows "(\<forall>(t, out) \<in> set (settled (run e init evs)). is_resolved out) \<and>
         (\<forall>(t, out) \<in> set (settled (drain e (run e init evs))). is_resolved out) \<and>
         (\<forall>ev \<in> set evs. \<forall>t. handler_call ev = Some t \<longrightarrow>
            (\<exists>v. (t, Resolved v) \<in> set (settled (drain e (run e init evs))))) \<and>
         (\<forall>data t s err. snd (preview_try e data) = Inl err \<longrightarrow>
            settled (preview_file e t data s) =
              settled s @ [(t, Resolved (JObj [(''error'', JStr (message err))]))]) \<and>
         (\<forall>t s err. settled (import_catch t err s) =
              settled s @ [(t, Resolved (JObj [(''error'', JStr (message err))]))]) \<and>
         (\<forall>t symbol s err. settled (import_after t symbol (Inl err) s) =
              settled s @ [(t, Resolved (JObj [(''error'', JStr (message err))]))]) \<and>
         (\<forall>t s err. settled (ping_after t (Inl err) s) =
              settled s @ [(t, Resolved (JObj [(''error'', JStr (message err))]))]) \<and>
         (\<forall>t s err. settled (health_after e t (Inl err) s) =
              settled s @ [(t, Resolved (JObj [(''status'', JStr ''error''),
                                               (''timestamp'', JStr (now e)),
                                               (''version'', JStr (version e)),
                                               (''error'', JStr (message err))]))])"
proof -
  let ?fires = "replicate (sum_list (map timer_weight (timers (run e init evs)))) (Fire 0)"
  have init_tm: "\<forall>tm \<in> set (timers init). handler_timer tm" by (simp add: init_def)
  have init_res: "\<forall>(t, out) \<in> set (settled init). is_resolved out" by (simp add: init_def)
  have all: "\<forall>ev \<in> set (evs @ ?fires). handler_event ev"
    using assms by (auto simp: handler_event_def)
  have dr: "drain e (run e init evs) = run e init (evs @ ?fires)"
    by (simp add: drain_def run_append)
  have never: "\<forall>(t, out) \<in> set (settled (run e init evs)). is_resolved out"
    using handler_run_invariant [OF assms init_tm init_res, of e] by simp
  have never': "\<forall>(t, out) \<in> set (settled (drain e (run e init evs))). is_resolved out"
    using handler_run_invariant [OF all init_tm init_res, of e] dr by simp
  have always: "\<exists>v. (t, Resolved v) \<in> set (settled (drain e (run e init evs)))"
    if ev: "ev \<in> set evs" and call: "handler_call ev = Some t" for ev t
  proof -
    from ev have "ev \<in> set (evs @ ?fires)" by simp
    from handler_run_tracks_calls [OF all init_tm init_res this call, of e]
    have "t \<in> fst ` set (settled (drain e (run e init evs)))"
      using dr drain_empties [of e "run e init evs"] by simp
    then obtain out where out: "(t, out) \<in> set (settled (drain e (run e init evs)))" by auto
    with never' have "is_resolved out" by auto
    then obtain v where "out = Resolved v" by (cases out) simp_all
    with out show ?thesis by blast
  qed
  have preview: "settled (preview_file e t data s) =
      settled s @ [(t, Resolved (JObj [(''error'', JStr (message err))]))]"
    if "snd (preview_try e data) = Inl err" for data t s err
    using that
    by (cases "preview_try e data")
       (simp add: preview_file_def settle_fields emit_fields error_object_def err_text_def)
  have imp_catch: "settled (import_catch t err s) =
      settled s @ [(t, Resolved (JObj [(''error'', JStr (message err))]))]" for t s err
    by (simp add: import_catch_fields error_object_def err_text_def)
  have imp_after: "settled (import_after t symbol (Inl err) s) =
      settled s @ [(t, Resolved (JObj [(''error'', JStr (message err))]))]" for t symbol s err
    by (simp add: import_after_def imp_catch)
  have ping: "settled (ping_after t (Inl err) s) =
      settled s @ [(t, Resolved (JObj [(''error'', JStr (message err))]))]" for t s err
    by (simp add: ping_after_def settle_fields error_object_def err_text_def)
  have health: "settled (health_after e t (Inl err) s) =
      settled s @ [(t, Resolved (JObj [(''status'', JStr ''error''),
                                       (''timestamp'', JStr (now e)),
                                       (''version'', JStr (version e)),
                                       (''error'', JStr (message err))]))]" for t s err
    by (simp add: health_after_def settle_fields err_text_def)
  have always': "\<forall>ev \<in> set evs. \<forall>t. handler_call ev = Some t \<longrightarrow>
      (\<exists>v. (t, Resolved v) \<in> set (settled (drain e (run e init evs))))"
    using always by blast
  have preview': "\<forall>data t s err. snd (preview_try e data) = Inl err \<longrightarrow>
      settled (preview_file e t data s) =
        settled s @ [(t, Resolved (JObj [(''error'', JStr (message err))]))]"
    using preview by blast
  have imp_catch': "\<forall>t s err. settled (import_catch t err s) =
      settled s @ [(t, Resolved (JObj [(''error'', JStr (message err))]))]"
    using imp_catch by blast
  have imp_after': "\<forall>t symbol s err. settled (import_after t symbol (Inl err) s) =
      settled s @ [(t, Resolved (JObj [(''error'', JStr (message err))]))]"
    using imp_after by blast
  have ping': "\<forall>t s err. settled (ping_after t (Inl err) s) =
      settled s @ [(t, Resolved (JObj [(''error'', JStr (message err))]))]"
    using ping by blast
  have health': "\<forall>t s err. settled (health_after e t (Inl err) s) =
      settled s @ [(t, Resolved (JObj [(''status'', JStr ''error''),
                                       (''timestamp'', JStr (now e)),
                                       (''version'', JStr (version e)),
                                       (''error'', JStr (message err))]))]"
    using health by blast
  from never never' always' preview' imp_catch' imp_after' ping' health' show ?thesis
    by (intro conjI) assumption+
qed

theorem handlers_always_resolve_witness:
  "handler_event (Invoke 1 ''health-check'' JUndefined) \<and>
   handler_event (Invoke 2 ''import-data'' JUndefined) \<and>
   handler_event (PingPython 3) \<and>
   handler_event (Close 0 1) \<and>
   handler_event (Invoke 4 ''preview-file'' (JObj [(''filePath'', JStr ''/data/missing.csv'')])) \<and>
   settled (drain demo_env (run demo_env init
      [Invoke 1 ''health-check'' JUndefined, Invoke 2 ''import-data'' JUndefined, PingPython 3, Close 0 1,
       Invoke 4 ''preview-file'' (JObj [(''filePath'', JStr ''/data/missing.csv'')])])) =
     [(2, Resolved (JObj [(''error'', JStr (message (TypeError
            (''Cannot destructure property '' @ [CHR 0x27] @ ''filePath'' @ [CHR 0x27] @ '' of '' @
             [CHR 0x27] @ ''data'' @ [CHR 0x27] @ '' as it is undefined.''))))])),
      (4, Resolved (JObj [(''error'', JStr ''File does not exist'')])),
      (1, Resolved (JObj [(''status'', JStr ''error''),
                          (''timestamp'', JStr ''2024-01-01T00:00:00.000Z''),
                          (''version'', JStr ''1.0.0''),
                          (''error'', JStr ''Failed to start Python process'')])),
      (3, Resolved (mock_response ''ping''))] \<and>
   list_all (\<lambda>p. is_resolved (snd p)) (settled (drain demo_env (run demo_env init
      [Invoke 1 ''health-check'' JUndefined, Invoke 2 ''import-data'' JUndefined, PingPython 3, Close 0 1,
       Invoke 4 ''preview-file'' (JObj [(''filePath'', JStr ''/data/missing.csv'')])])))"
proof -
  let ?evs = "[Invoke 1 ''health-check'' JUndefined, Invoke 2 ''import-data'' JUndefined, PingPython 3, Close 0 1,
       Invoke 4 ''preview-file'' (JObj [(''filePath'', JStr ''/data/missing.csv'')])]"
  have a: "\<forall>ev \<in> set ?evs. handler_event ev" by (simp add: handler_event_def)
  have b: "settled (drain demo_env (run demo_env init ?evs)) =
     [(2, Resolved (JObj [(''error'', JStr (message (TypeError
            (''Cannot destructure property '' @ [CHR 0x27] @ ''filePath'' @ [CHR 0x27] @ '' of '' @
             [CHR 0x27] @ ''data'' @ [CHR 0x27] @ '' as it is undefined.''))))])),
      (4, Resolved (JObj [(''error'', JStr ''File does not exist'')])),
      (1, Resolved (JObj [(''status'', JStr ''error''),
                          (''timestamp'', JStr ''2024-01-01T00:00:00.000Z''),
                          (''version'', JStr ''1.0.0''),
                          (''error'', JStr ''Failed to start Python process'')])),
      (3, Resolved (mock_response ''ping''))]"
    by code_simp
  have c: "\<forall>(t, out) \<in> set (settled (drain demo_env (run demo_env init ?evs))). is_resolved out"
    by (rule handlers_always_resolve [OF a, of demo_env, THEN conjunct2, THEN conjunct1])
  from a b c show ?thesis by (simp add: handler_event_def list_all_iff)
qed

subsection \<open>Which events touch the process handle\<close>

lemma resume_process:
  "pythonProcess (resume e w r s) = pythonProcess s" "spawned (resume e w r s) = spawned s"
  by (cases w;
      auto simp: settle_fields emit_fields health_after_def ping_after_def import_after_def
        import_catch_fields Let_def split: sum.splits)+

lemma send_request_process:
  "pythonProcess (send_request e action data w s) = pythonProcess s"
  "spawned (send_request e action data w s) = spawned s"
  by (cases "pythonProcess s"; simp add: send_request_def Let_def resume_process emit_fields)+

lemma fire_process:
  "pythonProcess (fire e tm s) = pythonProcess s" "spawned (fire e tm s) = spawned s"
proof -
  have "pythonProcess (fire e tm s) = pythonProcess s \<and> spawned (fire e tm s) = spawned s"
  proof (cases tm)
    case (StartCheck sw)
    then show ?thesis
      by (cases sw) (simp_all add: settle_fields emit_fields resume_process send_request_process)
  next
    case (MockResolve action w)
    then show ?thesis by (simp add: resume_process)
  qed
  then show "pythonProcess (fire e tm s) = pythonProcess s" "spawned (fire e tm s) = spawned s"
    by simp_all
qed

lemma sendToPython_process:
  "(pythonProcess (sendToPython e action data w s) = pythonProcess s \<and>
    spawned (sendToPython e action data w s) = spawned s) \<or>
   (pythonProcess s = None \<and> pythonProcess (sendToPython e action data w s) = Some (spawned s) \<and>
    spawned (sendToPython e action data w s) = Suc (spawned s))"
  by (cases "pythonProcess s") (simp_all add: sendToPython_def start_def Let_def send_request_process)

lemma import_data_process:
  "(pythonProcess (import_data e t data s) = pythonProcess s \<and>
    spawned (import_data e t data s) = spawned s) \<or>
   (pythonProcess s = None \<and> pythonProcess (import_data e t data s) = Some (spawned s) \<and>
    spawned (import_data e t data s) = Suc (spawned s))"
proof -
  have "(pythonProcess (sendToPython e action d w (emit es s)) = pythonProcess s \<and>
         spawned (sendToPython e action d w (emit es s)) = spawned s) \<or>
        (pythonProcess s = None \<and> pythonProcess (sendToPython e action d w (emit es s)) = Some (spawned s) \<and>
         spawned (sendToPython e action d w (emit es s)) = Suc (spawned s))" for action d w es
    using sendToPython_process [of e action d w "emit es s"] by (simp add: emit_fields)
  then show ?thesis
    by (auto simp: import_data_def import_catch_fields emit_fields split: sum.splits)
qed

lemma ipcMain_handle_process:
  "(pythonProcess (ipcMain_handle e t channel data s) = pythonProcess s \<and>
    spawned (ipcMain_handle e t channel data s) = spawned s) \<or>
   (pythonProcess s = None \<and> pythonProcess (ipcMain_handle e t channel data s) = Some (spawned s) \<and>
    spawned (ipcMain_handle e t channel data s) = Suc (spawned s))"
  using sendToPython_process [of e "''health-check''" JUndefined "W_health t" s]
    sendToPython_process [of e "''ping''" JUndefined "W_ping t" s]
    import_data_process [of e t data s]
  by (simp add: ipcMain_handle_def health_check_def ping_python_def preview_file_process
      open_file_dialog_process settle_fields)

lemma request_step_process:
  assumes "is_request ev"
  shows "(pythonProcess (step e s ev) = pythonProcess s \<and> spawned (step e s ev) = spawned s) \<or>
         (pythonProcess s = None \<and> pythonProcess (step e s ev) = Some (spawned s) \<and>
          spawned (step e s ev) = Suc (spawned s))"
proof (cases ev)
  case (Call_sendToPython t action data)
  then show ?thesis using sendToPython_process [of e action data "W_caller t" s] by simp
next
  case (Invoke t channel data)
  show ?thesis
  proof (cases "invoke channel data")
    case (Inl err)
    then show ?thesis using Invoke by (simp add: boundary_invoke_def settle_fields)
  next
    case (Inr c)
    then show ?thesis
      using Invoke by (cases c) (simp add: boundary_invoke_def ipcMain_handle_process)
  qed
next
  case (Ping t)
  then show ?thesis using ipcMain_handle_process [of e t "''ping''" JUndefined s] by simp
next
  case (PingPython t)
  then show ?thesis using ipcMain_handle_process [of e t "''ping-python''" JUndefined s] by simp
qed (use assms in simp_all)

lemma spawn_keeps_invariant:
  assumes inv: "\<forall>q < n. q \<notin> set cl \<longrightarrow> h = Some q" and none: "h = None"
  shows "\<forall>q < Suc n. q \<notin> set cl \<longrightarrow> Some n = Some q"
proof (intro allI impI)
  fix q
  assume q: "q < Suc n" "q \<notin> set cl"
  have "\<not> q < n"
  proof
    assume "q < n"
    with inv q(2) have "h = Some q" by blast
    with none show False by simp
  qed
  with q(1) have "q = n" by simp
  then show "Some n = Some q" by simp
qed

lemma close_keeps_invariant:
  assumes inv: "\<forall>q < n. q \<notin> set cl \<longrightarrow> h = Some q" and p: "p < n" "p \<notin> set cl"
  shows "\<forall>q < n. q \<notin> set (p # cl) \<longrightarrow> None = Some q"
proof (intro allI impI)
  fix q
  assume q: "q < n" "q \<notin> set (p # cl)"
  then have other: "q \<notin> set cl" "q \<noteq> p" by auto
  with inv q(1) have "h = Some q" by blast
  moreover from inv p have "h = Some p" by blast
  ultimately have "q = p" by simp
  with other(2) show "None = Some q" by simp
qed

lemma guarded_step_invariant:
  assumes inv: "\<forall>q < spawned s. q \<notin> set cl \<longrightarrow> pythonProcess s = Some q"
    and ok: "guarded_event s cl ev"
  shows "\<forall>q < spawned (step e s ev). q \<notin> set (closed_after cl ev) \<longrightarrow> pythonProcess (step e s ev) = Some q"
proof (cases "is_request ev")
  case True
  then have same: "closed_after cl ev = cl" by (cases ev) simp_all
  from request_step_process [OF True, of e s] show ?thesis
  proof
    assume "pythonProcess (step e s ev) = pythonProcess s \<and> spawned (step e s ev) = spawned s"
    then have eq: "pythonProcess (step e s ev) = pythonProcess s" "spawned (step e s ev) = spawned s"
      by simp_all
    show ?thesis unfolding eq same by (rule inv)
  next
    assume "pythonProcess s = None \<and> pythonProcess (step e s ev) = Some (spawned s) \<and>
      spawned (step e s ev) = Suc (spawned s)"
    then have none: "pythonProcess s = None"
      and eq: "pythonProcess (step e s ev) = Some (spawned s)" "spawned (step e s ev) = Suc (spawned s)"
      by simp_all
    show ?thesis unfolding eq same by (rule spawn_keeps_invariant [OF inv none])
  qed
next
  case False
  show ?thesis
  proof (cases ev)
    case (Call_start t)
    with ok have none: "pythonProcess s = None" by simp
    have eq: "pythonProcess (step e s ev) = Some (spawned s)" "spawned (step e s ev) = Suc (spawned s)"
      "closed_after cl ev = cl"
      using Call_start by (simp_all add: start_def Let_def)
    show ?thesis unfolding eq by (rule spawn_keeps_invariant [OF inv none])
  next
    case Call_stop
    with ok show ?thesis by simp
  next
    case (Stdout p chunk)
    then have eq: "pythonProcess (step e s ev) = pythonProcess s" "spawned (step e s ev) = spawned s"
      "closed_after cl ev = cl"
      by (simp_all add: stdout_fields)
    show ?thesis unfolding eq by (rule inv)
  next
    case (Stderr p chunk)
    then have eq: "pythonProcess (step e s ev) = pythonProcess s" "spawned (step e s ev) = spawned s"
      "closed_after cl ev = cl"
      by (simp_all add: stderr_fields)
    show ?thesis unfolding eq by (rule inv)
  next
    case (Close p code)
    with ok have p: "p < spawned s" "p \<notin> set cl" by simp_all
    have eq: "pythonProcess (step e s ev) = None" "spawned (step e s ev) = spawned s"
      "closed_after cl ev = p # cl"
      using Close p by (simp_all add: close_fields)
    show ?thesis unfolding eq by (rule close_keeps_invariant [OF inv p])
  next
    case (Fire i)
    then have eq: "pythonProcess (step e s ev) = pythonProcess s" "spawned (step e s ev) = spawned s"
      "closed_after cl ev = cl"
      by (simp_all add: fire_process)
    show ?thesis unfolding eq by (rule inv)
  qed (use False in simp_all)
qed

lemma guarded_run_invariant:
  assumes "guarded_run e s cl evs"
    and "\<forall>q < spawned s. q \<notin> set cl \<longrightarrow> pythonProcess s = Some q"
  shows "\<forall>q < spawned (run e s evs). q \<notin> set (run_closed cl evs) \<longrightarrow> pythonProcess (run e s evs) = Some q"
  using assms
proof (induction evs arbitrary: s cl)
  case Nil
  have eq: "run e s [] = s" "run_closed cl [] = cl" by (simp_all add: run_closed_def)
  show ?case unfolding eq by (rule Nil.prems(2))
next
  case (Cons ev evs)
  from Cons.prems(1) have ok: "guarded_event s cl ev"
    and rest: "guarded_run e (step e s ev) (closed_after cl ev) evs" by simp_all
  have eq: "run e s (ev # evs) = run e (step e s ev) evs"
    "run_closed cl (ev # evs) = run_closed (closed_after cl ev) evs"
    by (simp_all add: run_closed_def)
  show ?case unfolding eq
    by (rule Cons.IH [OF rest guarded_step_invariant [OF Cons.prems(2) ok]])
qed

text \<open>
  Claim C4, as the code has it. The service has one field for the process handle. In every
  sequence of events the application produces (requests through \<open>sendToPython\<close>, directly
  or from a handler behind the boundary; timers; worker output; each worker closing once;
  \<open>start\<close> called directly only while the field is empty), every worker that is still
  live is the one in the field, so at most one is live. A request issued while the field
  holds a handle keeps that handle and spawns nothing. \<open>start\<close> itself makes no such
  test: every call spawns a process and overwrites the field.
\<close>

theorem guarded_request_does_not_spawn:
  "(guarded_run e init [] evs \<longrightarrow>
      set (live_workers (run e init evs) (run_closed [] evs)) \<subseteq> set_option (pythonProcess (run e init evs)) \<and>
      length (live_workers (run e init evs) (run_closed [] evs)) \<le> 1) \<and>
   (pythonProcess s = Some p \<longrightarrow> is_request ev \<longrightarrow>
      pythonProcess (step e s ev) = Some p \<and> spawned (step e s ev) = spawned s) \<and>
   pythonProcess (start e sw s) = Some (spawned s) \<and>
   spawned (start e sw s) = Suc (spawned s)"
proof -
  have one: "set (live_workers (run e init evs) (run_closed [] evs)) \<subseteq> set_option (pythonProcess (run e init evs)) \<and>
      length (live_workers (run e init evs) (run_closed [] evs)) \<le> 1"
    if g: "guarded_run e init [] evs"
  proof -
    let ?live = "live_workers (run e init evs) (run_closed [] evs)"
    have "\<forall>q < spawned init. q \<notin> set [] \<longrightarrow> pythonProcess init = Some q" by (simp add: init_def)
    from guarded_run_invariant [OF g this]
    have inv: "\<forall>q < spawned (run e init evs). q \<notin> set (run_closed [] evs) \<longrightarrow>
        pythonProcess (run e init evs) = Some q" .
    have sub: "set ?live \<subseteq> set_option (pythonProcess (run e init evs))"
    proof
      fix q
      assume "q \<in> set ?live"
      then have "q < spawned (run e init evs)" "q \<notin> set (run_closed [] evs)"
        by (simp_all add: live_workers_def)
      with inv have "pythonProcess (run e init evs) = Some q" by blast
      then show "q \<in> set_option (pythonProcess (run e init evs))" by simp
    qed
    have "distinct ?live" by (simp add: live_workers_def)
    then have "length ?live = card (set ?live)" by (simp add: distinct_card)
    also have "\<dots> \<le> card (set_option (pythonProcess (run e init evs)))"
      using sub by (intro card_mono) simp_all
    also have "\<dots> \<le> 1" by (cases "pythonProcess (run e init evs)") simp_all
    finally show ?thesis using sub by simp
  qed
  have keep: "pythonProcess (step e s ev) = Some p \<and> spawned (step e s ev) = spawned s"
    if live: "pythonProcess s = Some p" and req: "is_request ev"
    using request_step_process [OF req, of e s] live by auto
  from one keep show ?thesis by (simp add: start_def Let_def)
qed

theorem guarded_request_does_not_spawn_witness:
  "guarded_run demo_env init []
     [Call_start 0, Fire 0, Invoke 5 ''health-check'' JUndefined, Close 0 1,
      Invoke 6 ''health-check'' JUndefined, PingPython 7] \<and>
   live_workers
     (run demo_env init
        [Call_start 0, Fire 0, Invoke 5 ''health-check'' JUndefined, Close 0 1,
         Invoke 6 ''health-check'' JUndefined, PingPython 7])
     (run_closed []
        [Call_start 0, Fire 0, Invoke 5 ''health-check'' JUndefined, Close 0 1,
         Invoke 6 ''health-check'' JUndefined, PingPython 7]) = [1] \<and>
   pythonProcess (run demo_env init [Call_start 0, Fire 0]) = Some 0 \<and>
   is_request (Invoke 5 ''health-check'' JUndefined) \<and>
   pythonProcess (step demo_env (run demo_env init [Call_start 0, Fire 0]) (Invoke 5 ''health-check'' JUndefined)) = Some 0 \<and>
   spawned (step demo_env (run demo_env init [Call_start 0, Fire 0]) (Invoke 5 ''health-check'' JUndefined)) = 1"
proof -
  have g: "guarded_run demo_env init []
     [Call_start 0, Fire 0, Invoke 5 ''health-check'' JUndefined, Close 0 1,
      Invoke 6 ''health-check'' JUndefined, PingPython 7]" by code_simp
  have l: "live_workers
     (run demo_env init
        [Call_start 0, Fire 0, Invoke 5 ''health-check'' JUndefined, Close 0 1,
         Invoke 6 ''health-check'' JUndefined, PingPython 7])
     (run_closed []
        [Call_start 0, Fire 0, Invoke 5 ''health-check'' JUndefined, Close 0 1,
         Invoke 6 ''health-check'' JUndefined, PingPython 7]) = [1]" by code_simp
  have a: "pythonProcess (run demo_env init [Call_start 0, Fire 0]) = Some 0" by code_simp
  have b: "spawned (run demo_env init [Call_start 0, Fire 0]) = 1" by code_simp
  have c: "is_request (Invoke 5 ''health-check'' JUndefined)" by simp
  from guarded_request_does_not_spawn [of demo_env
      "[Call_start 0, Fire 0, Invoke 5 ''health-check'' JUndefined, Close 0 1,
        Invoke 6 ''health-check'' JUndefined, PingPython 7]"
      "run demo_env init [Call_start 0, Fire 0]" 0
      "Invoke 5 ''health-check'' JUndefined" ] g l a b c
  show ?thesis by simp
qed

text \<open>
  The claim as written fails: a second \<open>start\<close> issued while the first worker is live
  (it never closed) spawns a second process and replaces the handle.
\<close>

theorem start_twice_spawns_twice:
  "pythonProcess (run demo_env init [Call_start 1]) = Some 0 \<and>
   pythonProcess (run demo_env init [Call_start 1, Call_start 2]) = Some 1 \<and>
   trace (run demo_env init [Call_start 1, Call_start 2]) =
     [ConsoleLog ''Starting Python backend:'' [JStr ''/app/backend/main.py''],
      Spawn 0 ''python'' [''/app/backend/main.py''],
      ConsoleLog ''Starting Python backend:'' [JStr ''/app/backend/main.py''],
      Spawn 1 ''python'' [''/app/backend/main.py'']]"
  by code_simp

end
